theory Spec2Isabelle
  imports Main "HOL-Library.Sublist"
begin

section \<open>gosette: a mock HTTP server that records its exchanges\<close>

text \<open>
  The development follows \<^verbatim>\<open>httptestserver.go\<close>. That file holds the handler
  \<^verbatim>\<open>ServeHTTP\<close>, the management functions of \<^verbatim>\<open>HTTPTestServer\<close>, the helper
  \<^verbatim>\<open>handleInternalError\<close> and the \<^verbatim>\<open>multiTargetHTTPResponseWriter\<close>. Lines 392 to 659
  of the file hold an older copy of lines 1 to 269 behind a second \<^verbatim>\<open>package\<close> clause; it
  declares neither the writer nor \<^verbatim>\<open>headersAdd\<close>, which it calls, and is no part of the
  package that compiles. The model follows the declarations of lines 1 to 390, which are
  the ones the tests run.

  Go strings and byte slices are both \<^typ>\<open>string\<close> here (a list of bytes).
\<close>

type_synonym bytes = string

subsection \<open>Errors\<close>

text \<open>
  A Go \<^verbatim>\<open>error\<close>. \<open>Err m\<close> is an error with message \<open>m\<close> and nothing inside
  (\<^verbatim>\<open>errors.New\<close>, \<^verbatim>\<open>fmt.Errorf\<close> without \<^verbatim>\<open>%w\<close>); \<open>Wrap p e\<close> is
  \<^verbatim>\<open>fmt.Errorf(p + "%w", e)\<close>.
\<close>

datatype error = Err string | Wrap string error

fun Error :: "error \<Rightarrow> string" where
  "Error (Err m) = m"
| "Error (Wrap p e) = p @ Error e"

fun Unwrap :: "error \<Rightarrow> error option" where
  "Unwrap (Err m) = None"
| "Unwrap (Wrap p e) = Some e"

subsection \<open>Response writers\<close>

text \<open>
  \<^verbatim>\<open>http.ResponseWriter\<close> is an interface; its implementations (the recorder of
  \<^verbatim>\<open>httptest\<close>, the connection of \<^verbatim>\<open>net/http\<close>, the mocks of the tests) are not part
  of the package. What the package does to a writer is a sequence of calls, so a sink is
  modelled by the calls it receives. \<open>HeaderAdd k v\<close> and \<open>HeaderSet k v\<close> stand for
  \<^verbatim>\<open>Header().Add(k, v)\<close> and \<^verbatim>\<open>Header().Set(k, v)\<close> on the sink's header map.
\<close>

datatype call =
    HeaderAdd string string
  | HeaderSet string string
  | WriteHeaderCall int
  | WriteCall bytes

text \<open>
  Sinks are objects behind pointers: \<open>Recorder k\<close> is the \<open>k\<close>-th recorder created by
  \<^verbatim>\<open>httptest.NewRecorder()\<close>, \<open>Client n\<close> a writer owned by the caller of the handler.
\<close>

datatype addr = Recorder nat | Client nat

text \<open>
  A writer is a sink, or a \<^verbatim>\<open>multiTargetHTTPResponseWriter\<close> with its \<^verbatim>\<open>targets\<close>, which
  are writers again (the tests pass a multi target writer to \<^verbatim>\<open>ServeHTTP\<close>).
\<close>

datatype 'a writer = Target 'a | MultiTarget "'a writer list"

text \<open>
  The state of all sinks: every call that returned so far, oldest first, with the sink that
  received it; the number of recorders created; what \<^verbatim>\<open>Write\<close> returns on a sink of the
  caller; and whether \<^verbatim>\<open>WriteHeader\<close> returns on a sink of the caller (it panics
  otherwise) when the status code is not one of 100 to 999. Both may depend on everything
  that happened before.
\<close>

record sinks =
  trace :: "(addr \<times> call) list"
  recorders :: nat
  clientWrite :: "(addr \<times> call) list \<Rightarrow> nat \<Rightarrow> bytes \<Rightarrow> int \<times> error option"
  clientWriteHeader :: "(addr \<times> call) list \<Rightarrow> nat \<Rightarrow> int \<Rightarrow> bool"

definition emit :: "addr \<Rightarrow> call \<Rightarrow> sinks \<Rightarrow> sinks" where
  "emit a c s = s\<lparr>trace := trace s @ [(a, c)]\<rparr>"

text \<open>\<^verbatim>\<open>httptest.NewRecorder()\<close>.\<close>

definition NewRecorder :: "sinks \<Rightarrow> nat \<times> sinks" where
  "NewRecorder s = (recorders s, s\<lparr>recorders := Suc (recorders s)\<rparr>)"

text \<open>
  The result of \<^verbatim>\<open>Write\<close> on a sink. A \<^verbatim>\<open>httptest.ResponseRecorder\<close> returns
  \<^verbatim>\<open>len(buf), nil\<close>.
\<close>

fun sinkWrite :: "sinks \<Rightarrow> addr \<Rightarrow> bytes \<Rightarrow> int \<times> error option" where
  "sinkWrite s (Recorder k) d = (int (length d), None)"
| "sinkWrite s (Client n) d = clientWrite s (trace s) n d"

text \<open>
  \<^verbatim>\<open>newMultiTargetHTTPResponseWriter\<close> (lines 283 to 292). A
  \<^verbatim>\<open>multiTargetHTTPResponseWriter\<close> is given by its \<^verbatim>\<open>targets\<close>; as a
  \<^verbatim>\<open>http.ResponseWriter\<close> it is \<open>MultiTarget targets\<close>.
\<close>

definition newMultiTargetHTTPResponseWriter :: "'a writer list \<Rightarrow> 'a writer list" where
  "newMultiTargetHTTPResponseWriter targets = [] @ targets"

text \<open>
  \<^verbatim>\<open>Header\<close> (lines 314 to 322): the sink whose header map the writer hands out. A
  multi target writer hands out the map of its first target, and a fresh map, attached to
  nothing, when it has no target (\<open>None\<close>).
\<close>

fun Header :: "'a writer \<Rightarrow> 'a option" where
  "Header (Target a) = Some a"
| "Header (MultiTarget []) = None"
| "Header (MultiTarget (t # ts)) = Header t"

definition Header_Add :: "string \<Rightarrow> string \<Rightarrow> addr writer \<Rightarrow> sinks \<Rightarrow> sinks" where
  "Header_Add k v w s = (case Header w of None \<Rightarrow> s | Some a \<Rightarrow> emit a (HeaderAdd k v) s)"

definition Header_Set :: "string \<Rightarrow> string \<Rightarrow> addr writer \<Rightarrow> sinks \<Rightarrow> sinks" where
  "Header_Set k v w s = (case Header w of None \<Rightarrow> s | Some a \<Rightarrow> emit a (HeaderSet k v) s)"

text \<open>
  \<^verbatim>\<open>Write\<close> (lines 345 to 358). \<open>Write_targets\<close> is the loop over \<^verbatim>\<open>mw.targets\<close>; its
  third argument holds the variables \<^verbatim>\<open>r\<close> and \<^verbatim>\<open>err\<close>.
\<close>

fun Write :: "bytes \<Rightarrow> addr writer \<Rightarrow> sinks \<Rightarrow> (int \<times> error option) \<times> sinks"
  and Write_targets ::
    "bytes \<Rightarrow> addr writer list \<Rightarrow> int \<times> error option \<Rightarrow> sinks \<Rightarrow> (int \<times> error option) \<times> sinks"
where
  "Write d (Target a) s = (sinkWrite s a d, emit a (WriteCall d) s)"
| "Write d (MultiTarget ts) s = Write_targets d ts (0, None) s"
| "Write_targets d [] res s = (res, s)"
| "Write_targets d (t # ts) res s =
     (case Write d t s of
        ((r, Some e), s') \<Rightarrow> ((r, Some e), s')
      | ((r, None), s') \<Rightarrow> Write_targets d ts (r, None) s')"

text \<open>
  \<^verbatim>\<open>checkWriteHeaderCode\<close> of \<^verbatim>\<open>net/http\<close> and \<^verbatim>\<open>httptest\<close>: it returns on a status code
  of three digits and panics on every other one (\<open>False\<close>).
\<close>

definition checkWriteHeaderCode :: "int \<Rightarrow> bool" where
  "checkWriteHeaderCode code = (\<not> (code < 100 \<or> code > 999))"

text \<open>
  The field \<^verbatim>\<open>wroteHeader\<close> of a \<^verbatim>\<open>httptest.ResponseRecorder\<close>: it is set by the first
  \<^verbatim>\<open>WriteHeader\<close> that returns, and by the first \<^verbatim>\<open>Write\<close>, which writes the header
  with status 200 when none was written.
\<close>

fun wroteHeader :: "addr \<Rightarrow> (addr \<times> call) list \<Rightarrow> bool" where
  "wroteHeader a [] = False"
| "wroteHeader a ((b, WriteHeaderCall c) # tr) = (a = b \<or> wroteHeader a tr)"
| "wroteHeader a ((b, WriteCall d) # tr) = (a = b \<or> wroteHeader a tr)"
| "wroteHeader a ((b, HeaderAdd k v) # tr) = wroteHeader a tr"
| "wroteHeader a ((b, HeaderSet k v) # tr) = wroteHeader a tr"

text \<open>
  Whether \<^verbatim>\<open>WriteHeader\<close> returns on a sink; it panics otherwise. A
  \<^verbatim>\<open>httptest.ResponseRecorder\<close> returns at once when its header is written, and else runs
  \<^verbatim>\<open>checkWriteHeaderCode\<close>, which panics on a code outside 100 to 999. A sink of the caller
  is taken to return on the codes that \<^verbatim>\<open>checkWriteHeaderCode\<close> accepts.
\<close>

fun sinkWriteHeader :: "sinks \<Rightarrow> addr \<Rightarrow> int \<Rightarrow> bool" where
  "sinkWriteHeader s (Recorder k) c =
     (if wroteHeader (Recorder k) (trace s) then True else checkWriteHeaderCode c)"
| "sinkWriteHeader s (Client n) c =
     (if checkWriteHeaderCode c then True else clientWriteHeader s (trace s) n c)"

text \<open>
  \<^verbatim>\<open>WriteHeader\<close> (lines 378 to 383). \<open>None\<close> is a panic: when \<^verbatim>\<open>WriteHeader\<close> panics
  on a target, the loop ends there and the targets after it are not called.
\<close>

fun WriteHeader :: "int \<Rightarrow> addr writer \<Rightarrow> sinks \<Rightarrow> sinks option"
  and WriteHeader_targets :: "int \<Rightarrow> addr writer list \<Rightarrow> sinks \<Rightarrow> sinks option"
where
  "WriteHeader c (Target a) s =
     (if sinkWriteHeader s a c then Some (emit a (WriteHeaderCall c) s) else None)"
| "WriteHeader c (MultiTarget ts) s = WriteHeader_targets c ts s"
| "WriteHeader_targets c [] s = Some s"
| "WriteHeader_targets c (t # ts) s =
     (case WriteHeader c t s of
        None \<Rightarrow> None
      | Some s' \<Rightarrow> WriteHeader_targets c ts s')"

text \<open>\<^verbatim>\<open>headersAdd\<close> (lines 385 to 390), on the targets of a multi target writer.\<close>

fun headersAdd :: "string \<Rightarrow> string \<Rightarrow> addr writer list \<Rightarrow> sinks \<Rightarrow> sinks" where
  "headersAdd k v [] s = s"
| "headersAdd k v (t # ts) s = headersAdd k v ts (Header_Add k v t s)"

text \<open>The sinks below a writer, in the order of the targets.\<close>

fun leaves :: "'a writer \<Rightarrow> 'a list"
  and leaves_targets :: "'a writer list \<Rightarrow> 'a list"
where
  "leaves (Target a) = [a]"
| "leaves (MultiTarget ts) = leaves_targets ts"
| "leaves_targets [] = []"
| "leaves_targets (t # ts) = leaves t @ leaves_targets ts"

subsection \<open>Requests and their bodies\<close>

text \<open>
  An \<^verbatim>\<open>io.Reader\<close> as a request body: it delivers the bytes and then reports the end
  of the stream (\<open>None\<close>) or a failure.
\<close>

datatype reader = Reader bytes "error option"

text \<open>\<^verbatim>\<open>url.Values\<close>: keys with their values; no key occurs twice.\<close>

type_synonym Values = "(string \<times> string list) list"

text \<open>
  The parts of \<^verbatim>\<open>http.Request\<close> the handler reads or writes. \<open>ContentType\<close> is
  \<^verbatim>\<open>r.Header.Get("Content-Type")\<close>, \<open>RawQuery\<close> is \<^verbatim>\<open>r.URL.RawQuery\<close>; a \<open>Body\<close>,
  \<open>PostForm\<close> or \<open>Form\<close> that is \<open>None\<close> is \<^verbatim>\<open>nil\<close>. The server of \<^verbatim>\<open>net/http\<close>
  passes requests whose \<open>Body\<close> is not \<^verbatim>\<open>nil\<close> and whose forms are.
\<close>

record Request =
  Method :: string
  RawQuery :: string
  ContentType :: string
  Body :: "reader option"
  PostForm :: "Values option"
  Form :: "Values option"

text \<open>
  \<^verbatim>\<open>io.NopCloser(io.TeeReader(r, w))\<close>: the reader \<open>r\<close> it reads from, which may be
  \<^verbatim>\<open>nil\<close>, and the content of the buffer \<open>w\<close> that receives a copy of every byte read.
\<close>

datatype teeReader = TeeReader "reader option" bytes

fun source :: "teeReader \<Rightarrow> reader option" where
  "source (TeeReader r buf) = r"

fun buffer :: "teeReader \<Rightarrow> bytes" where
  "buffer (TeeReader r buf) = buf"

text \<open>
  \<^verbatim>\<open>io.ReadAll\<close> on a tee reader: the bytes read with the failure met, if any, and the tee
  reader afterwards. Reading from a \<^verbatim>\<open>nil\<close> reader panics (\<open>None\<close>).
\<close>

fun ReadAll :: "teeReader \<Rightarrow> ((bytes \<times> error option) \<times> teeReader) option" where
  "ReadAll (TeeReader None buf) = None"
| "ReadAll (TeeReader (Some (Reader d e)) buf) =
     Some ((d, e), TeeReader (Some (Reader [] e)) (buf @ d))"

text \<open>
  \<^verbatim>\<open>io.ReadAll(io.LimitReader(t, n))\<close>: at most \<open>n\<close> bytes are read; when the limit is
  reached the limit reader reports the end of the stream without reading further.
\<close>

fun ReadAll_LimitReader :: "nat \<Rightarrow> teeReader \<Rightarrow> ((bytes \<times> error option) \<times> teeReader) option" where
  "ReadAll_LimitReader n (TeeReader None buf) =
     (if n = 0 then Some (([], None), TeeReader None buf) else None)"
| "ReadAll_LimitReader n (TeeReader (Some (Reader d e)) buf) =
     (if n \<le> length d
      then Some ((take n d, None), TeeReader (Some (Reader (drop n d) e)) (buf @ take n d))
      else Some ((d, e), TeeReader (Some (Reader [] e)) (buf @ d)))"

subsection \<open>Parsing forms: the functions of \<^verbatim>\<open>net/url\<close> and \<^verbatim>\<open>net/http\<close> the handler calls\<close>

text \<open>
  \<^verbatim>\<open>r.ParseForm()\<close> belongs to the standard library. It is modelled after its source,
  because it is the only reader of the body of a form request; \<^verbatim>\<open>mime.ParseMediaType\<close>
  is left as a parameter.
\<close>

definition ishex :: "char \<Rightarrow> bool" where
  "ishex c = (let n = (of_char c :: nat) in
     (48 \<le> n \<and> n \<le> 57) \<or> (97 \<le> n \<and> n \<le> 102) \<or> (65 \<le> n \<and> n \<le> 70))"

definition unhex :: "char \<Rightarrow> nat" where
  "unhex c = (let n = (of_char c :: nat) in
     if 48 \<le> n \<and> n \<le> 57 then n - 48
     else if 97 \<le> n \<and> n \<le> 102 then n - 97 + 10
     else if 65 \<le> n \<and> n \<le> 70 then n - 65 + 10
     else 0)"

text \<open>
  \<^verbatim>\<open>strconv.Quote\<close> on a text of ASCII bytes: the double quote and the backslash get a
  backslash, the other printable bytes stay, the control bytes are written as escapes. Bytes
  above \<^verbatim>\<open>0x7f\<close> stay as they are, which is what the library does with printable text
  in UTF-8.
\<close>

definition lowerhex :: "nat \<Rightarrow> char" where
  "lowerhex n = ''0123456789abcdef'' ! (n mod 16)"

definition quoteByte :: "char \<Rightarrow> string" where
  "quoteByte c = (let n = (of_char c :: nat) in
     if n = 0x22 \<or> n = 0x5C then [CHR 0x5C, c]
     else if 0x20 \<le> n \<and> n \<noteq> 0x7F then [c]
     else if n = 7 then [CHR 0x5C, CHR ''a'']
     else if n = 8 then [CHR 0x5C, CHR ''b'']
     else if n = 12 then [CHR 0x5C, CHR ''f'']
     else if n = 10 then [CHR 0x5C, CHR ''n'']
     else if n = 13 then [CHR 0x5C, CHR ''r'']
     else if n = 9 then [CHR 0x5C, CHR ''t'']
     else if n = 11 then [CHR 0x5C, CHR ''v'']
     else [CHR 0x5C, CHR ''x'', lowerhex (n div 16), lowerhex (n mod 16)])"

definition Quote :: "string \<Rightarrow> string" where
  "Quote t = [CHR 0x22] @ concat (map quoteByte t) @ [CHR 0x22]"

text \<open>The message of an \<^verbatim>\<open>url.EscapeError\<close>.\<close>

definition EscapeError :: "string \<Rightarrow> error" where
  "EscapeError t = Err (''invalid URL escape '' @ Quote t)"

text \<open>\<^verbatim>\<open>url.QueryUnescape\<close>.\<close>

fun QueryUnescape :: "string \<Rightarrow> error + string" where
  "QueryUnescape [] = Inr []"
| "QueryUnescape (c # cs) =
     (if c = CHR ''%'' then
        (case cs of
           a # b # rest \<Rightarrow>
             if ishex a \<and> ishex b
             then (case QueryUnescape rest of
                     Inl e \<Rightarrow> Inl e
                   | Inr t \<Rightarrow> Inr (char_of (16 * unhex a + unhex b) # t))
             else Inl (EscapeError (take 3 (c # cs)))
         | _ \<Rightarrow> Inl (EscapeError (take 3 (c # cs))))
      else (case QueryUnescape cs of
              Inl e \<Rightarrow> Inl e
            | Inr t \<Rightarrow> Inr ((if c = CHR ''+'' then CHR '' '' else c) # t)))"

text \<open>\<^verbatim>\<open>strings.Split\<close> and \<^verbatim>\<open>strings.Cut\<close> for a separator of one byte.\<close>

fun split :: "char \<Rightarrow> string \<Rightarrow> string list" where
  "split sep [] = [[]]"
| "split sep (c # cs) =
     (if c = sep then [] # split sep cs
      else (case split sep cs of [] \<Rightarrow> [[c]] | x # xs \<Rightarrow> (c # x) # xs))"

fun cut :: "char \<Rightarrow> string \<Rightarrow> string \<times> string" where
  "cut sep [] = ([], [])"
| "cut sep (c # cs) =
     (if c = sep then ([], cs) else (case cut sep cs of (before, after) \<Rightarrow> (c # before, after)))"

text \<open>\<^verbatim>\<open>m[k] = append(m[k], vs...)\<close> and \<^verbatim>\<open>copyValues\<close>.\<close>

fun appendValues :: "string \<Rightarrow> string list \<Rightarrow> Values \<Rightarrow> Values" where
  "appendValues k vs [] = [(k, vs)]"
| "appendValues k vs ((k', ws) # m) =
     (if k = k' then (k', ws @ vs) # m else (k', ws) # appendValues k vs m)"

fun copyValues :: "Values \<Rightarrow> Values \<Rightarrow> Values" where
  "copyValues dst [] = dst"
| "copyValues dst ((k, vs) # src) = copyValues (appendValues k vs dst) src"

text \<open>
  \<^verbatim>\<open>url.ParseQuery\<close>. The library cuts the query at each \<^verbatim>\<open>&\<close> and handles the pieces
  from left to right; \<open>parsePiece\<close> is the body of that loop.
\<close>

definition parsePiece :: "string \<Rightarrow> Values \<times> error option \<Rightarrow> Values \<times> error option" where
  "parsePiece piece acc = (case acc of (m, err) \<Rightarrow>
     if CHR '';'' \<in> set piece then (m, Some (Err ''invalid semicolon separator in query''))
     else if piece = [] then (m, err)
     else (case cut CHR ''='' piece of (key, val) \<Rightarrow>
       (case QueryUnescape key of
          Inl err1 \<Rightarrow> (m, if err = None then Some err1 else err)
        | Inr key1 \<Rightarrow>
            (case QueryUnescape val of
               Inl err1 \<Rightarrow> (m, if err = None then Some err1 else err)
             | Inr val1 \<Rightarrow> (appendValues key1 [val1] m, err)))))"

definition ParseQuery :: "string \<Rightarrow> Values \<times> error option" where
  "ParseQuery query = fold parsePiece (split CHR ''&'' query) ([], None)"

definition maxFormSize :: nat where
  "maxFormSize = 10485760"

definition formContentType :: string where
  "formContentType = ''application/x-www-form-urlencoded''"

text \<open>
  \<^verbatim>\<open>mime.ParseMediaType\<close> is a parameter \<open>mime\<close>: the media type and the failure it
  returns. On a content type that is the bare form type the library returns it unchanged.
\<close>

type_synonym mime = "string \<Rightarrow> string \<times> error option"

definition ParseMediaType :: "mime \<Rightarrow> string \<Rightarrow> string \<times> error option" where
  "ParseMediaType mime ct = (if ct = formContentType then (formContentType, None) else mime ct)"

text \<open>
  \<^verbatim>\<open>parsePostForm\<close> of \<^verbatim>\<open>net/http\<close>, on the request and its body (the tee reader, which
  is never a \<^verbatim>\<open>maxBytesReader\<close>): the values, the failure and the body afterwards.
\<close>

definition parsePostForm ::
  "mime \<Rightarrow> Request \<Rightarrow> teeReader option \<Rightarrow> ((Values option \<times> error option) \<times> teeReader option) option"
where
  "parsePostForm mime r body =
     (case body of
        None \<Rightarrow> Some ((None, Some (Err ''missing form body'')), None)
      | Some t \<Rightarrow>
          (case ParseMediaType mime
                  (if ContentType r = [] then ''application/octet-stream'' else ContentType r) of
             (ct, err) \<Rightarrow>
               if ct = formContentType then
                 (case ReadAll_LimitReader (maxFormSize + 1) t of
                    None \<Rightarrow> None
                  | Some ((b, Some e), t') \<Rightarrow>
                      Some ((None, if err = None then Some e else err), Some t')
                  | Some ((b, None), t') \<Rightarrow>
                      if length b > maxFormSize
                      then Some ((None, Some (Err ''http: POST too large'')), Some t')
                      else (case ParseQuery b of
                              (vs, e) \<Rightarrow> Some ((Some vs, if err = None then e else err), Some t')))
               else Some ((None, err), Some t)))"

text \<open>
  \<^verbatim>\<open>ParseForm\<close> of \<^verbatim>\<open>net/http\<close> (the URL of a request is never \<^verbatim>\<open>nil\<close>): the failure
  returned, the request with its forms, and the body afterwards; \<open>None\<close> is a panic.
\<close>

definition ParseForm ::
  "mime \<Rightarrow> Request \<Rightarrow> teeReader option \<Rightarrow> ((error option \<times> Request) \<times> teeReader option) option"
where
  "ParseForm mime r body =
     (case (if PostForm r = None
            then (if Method r = ''POST'' \<or> Method r = ''PUT'' \<or> Method r = ''PATCH''
                  then parsePostForm mime r body
                  else Some ((None, None), body))
            else Some ((PostForm r, None), body)) of
        None \<Rightarrow> None
      | Some ((pf, err), body') \<Rightarrow>
          (let postForm = (case pf of None \<Rightarrow> [] | Some vs \<Rightarrow> vs);
               r1 = r\<lparr>PostForm := Some postForm\<rparr>
           in if Form r1 = None then
                (case ParseQuery (RawQuery r1) of
                   (newValues, e) \<Rightarrow>
                     Some ((if err = None then e else err,
                            r1\<lparr>Form := Some (if length postForm > 0
                                              then copyValues (copyValues [] postForm) newValues
                                              else newValues)\<rparr>),
                           body'))
              else Some ((err, r1), body')))"

subsection \<open>The test server\<close>

text \<open>
  \<^verbatim>\<open>PredefinedServerResponse\<close> (lines 34 to 41). \<open>Headers\<close> lists the entries of the
  header map in the order in which the handler's \<^verbatim>\<open>range\<close> loop visits them.
\<close>

record PredefinedServerResponse =
  Status :: int
  Headers :: "(string \<times> string list) list"
  Body :: bytes

text \<open>
  \<^verbatim>\<open>ServerRecord\<close> (lines 47 to 60). \<open>Response\<close> is the recorder, a pointer: the calls
  it received are in the trace of the sinks. \<open>Request\<close> is the request as the handler left
  it, with the reader below the tee reader as its body.
\<close>

record ServerRecord =
  Request :: Request
  Response :: nat
  RequestBody :: bytes
  ServerError :: "error option"

text \<open>
  \<^verbatim>\<open>HTTPTestServer\<close> (lines 66 to 75), without the \<^verbatim>\<open>httptest.Server\<close> that carries it.
\<close>

record HTTPTestServer =
  responses :: "PredefinedServerResponse list"
  records :: "ServerRecord list"

definition NewHTTPTestServer :: HTTPTestServer where
  "NewHTTPTestServer = \<lparr>responses = [], records = []\<rparr>"

definition PushPredefinedServerResponse ::
  "PredefinedServerResponse \<Rightarrow> HTTPTestServer \<Rightarrow> HTTPTestServer" where
  "PushPredefinedServerResponse resp hts = hts\<lparr>responses := responses hts @ [resp]\<rparr>"

text \<open>\<^verbatim>\<open>PopServerRecord\<close> (lines 230 to 239); \<open>None\<close> is the \<^verbatim>\<open>nil\<close> record.\<close>

definition PopServerRecord :: "HTTPTestServer \<Rightarrow> ServerRecord option \<times> HTTPTestServer" where
  "PopServerRecord hts =
     (if length (records hts) \<ge> 1
      then (Some (records hts ! 0), hts\<lparr>records := drop 1 (records hts)\<rparr>)
      else (None, hts))"




text \<open>
  \<^verbatim>\<open>handleInternalError\<close> (lines 260 to 269). The result of \<^verbatim>\<open>Write\<close> is dropped, as in
  the source; \<open>None\<close> is a panic.
\<close>

definition handleInternalError ::
  "addr writer \<Rightarrow> ServerRecord \<Rightarrow> error \<Rightarrow> HTTPTestServer \<times> sinks
     \<Rightarrow> (HTTPTestServer \<times> sinks) option"
where
  "handleInternalError w serverRecord err st = (case st of (srv, s) \<Rightarrow>
     (let serverRecord1 = serverRecord\<lparr>ServerError := Some err\<rparr>;
          srv1 = srv\<lparr>records := records srv @ [serverRecord1]\<rparr>;
          s1 = Header_Set ''Content-Type'' ''text/plain'' w s
      in (case WriteHeader 500 w s1 of
            None \<Rightarrow> None
          | Some s2 \<Rightarrow> Some (srv1, snd (Write (Error err) w s2)))))"

subsection \<open>The handler\<close>

text \<open>
  The record of the exchange in flight. In the source it is built once (lines 86 to 91) and
  shares the request and the buffer of the tee reader by pointer; here it is read off the
  current request and body. \<^verbatim>\<open>r.Body\<close> is never \<^verbatim>\<open>nil\<close> after line 99.
\<close>

definition serverRecord :: "Request \<Rightarrow> nat \<Rightarrow> teeReader option \<Rightarrow> ServerRecord" where
  "serverRecord r responseRecorder body =
     \<lparr>Request = r\<lparr>Request.Body := (case body of None \<Rightarrow> None | Some t \<Rightarrow> source t)\<rparr>,
      Response = responseRecorder,
      RequestBody = (case body of None \<Rightarrow> [] | Some t \<Rightarrow> buffer t),
      ServerError = None\<rparr>"

text \<open>
  Line 99: \<^verbatim>\<open>r.Body = io.NopCloser(io.TeeReader(r.Body, serverRecord.RequestBody))\<close>, on
  the empty buffer of the new record. The result is a value, never \<^verbatim>\<open>nil\<close>.
\<close>

definition teeBody :: "Request \<Rightarrow> teeReader option" where
  "teeBody r = Some (TeeReader (Request.Body r) [])"

text \<open>
  Lines 101 to 113: the condition of line 102, under which the body is copied, and the read
  of line 104. The result is \<open>None\<close> when the read panics, and else the failure of the
  read with the body afterwards.
\<close>

definition copiesBody :: "Request \<Rightarrow> teeReader option \<Rightarrow> bool" where
  "copiesBody r body = (body \<noteq> None \<and> ContentType r \<noteq> ''application/x-www-form-urlencoded'')"

definition drainBody :: "Request \<Rightarrow> teeReader option \<Rightarrow> (error option \<times> teeReader option) option" where
  "drainBody r body =
     (if copiesBody r body
      then (case body of
              None \<Rightarrow> None
            | Some t \<Rightarrow> (case ReadAll t of
                          None \<Rightarrow> None
                        | Some ((b, err), t') \<Rightarrow> Some (err, Some t')))
      else Some (None, body))"

text \<open>Lines 126 to 140: the response to serve and the server with the queue after it.\<close>

definition selectResponse :: "HTTPTestServer \<Rightarrow> PredefinedServerResponse \<times> HTTPTestServer" where
  "selectResponse srv =
     (let response0 = \<lparr>Status = 404, Headers = [], Body = []\<rparr>;
          response = (if length (responses srv) \<ge> 1 then responses srv ! 0 else response0);
          srv1 = (if length (responses srv) > 1
                  then srv\<lparr>responses := drop 1 (responses srv)\<rparr> else srv)
      in (response, srv1))"

text \<open>Lines 142 to 147: the two loops over the headers of the response.\<close>

fun addValues :: "string \<Rightarrow> string list \<Rightarrow> addr writer list \<Rightarrow> sinks \<Rightarrow> sinks" where
  "addValues header [] mw s = s"
| "addValues header (v # vs) mw s = addValues header vs mw (headersAdd header v mw s)"

fun addHeaders :: "(string \<times> string list) list \<Rightarrow> addr writer list \<Rightarrow> sinks \<Rightarrow> sinks" where
  "addHeaders [] mw s = s"
| "addHeaders ((header, vs) # hs) mw s = addHeaders hs mw (addValues header vs mw s)"

text \<open>
  Lines 126 to 167: what the handler does once the form is parsed. \<open>mw\<close> holds the targets
  of the multi target writer. \<open>None\<close> is a panic: line 150 panics when the status of the
  response is not one of 100 to 999, since the recorder is new and the first target.
\<close>

definition respond ::
  "addr writer list \<Rightarrow> ServerRecord \<Rightarrow> HTTPTestServer \<times> sinks
     \<Rightarrow> (HTTPTestServer \<times> sinks) option"
where
  "respond mw rec st = (case st of (srv, s) \<Rightarrow>
     (case selectResponse srv of (response, srv1) \<Rightarrow>
        (let s1 = addHeaders (Headers response) mw s
         in (case WriteHeader (Status response) (MultiTarget mw) s1 of
               None \<Rightarrow> None
             | Some s2 \<Rightarrow>
                 if length (PredefinedServerResponse.Body response) > 0
                 then (case Write (PredefinedServerResponse.Body response) (MultiTarget mw) s2 of
                         ((n, Some err), s3) \<Rightarrow>
                           handleInternalError (MultiTarget mw) rec
                             (Wrap ''test server failed to write the predefined response: '' err)
                             (srv1, s3)
                       | ((n, None), s3) \<Rightarrow> Some (srv1\<lparr>records := records srv1 @ [rec]\<rparr>, s3))
                 else Some (srv1\<lparr>records := records srv1 @ [rec]\<rparr>, s2)))))"

text \<open>
  Lines 98 to 124: what the handler reads of the request. The result is \<open>None\<close> when a
  read panics; \<open>Inl\<close> holds the wrapped failure of line 107 or 119, \<open>Inr\<close> nothing; both
  come with the request and the body as they are at that point.
\<close>

definition readRequest ::
  "mime \<Rightarrow> Request \<Rightarrow>
     ((error \<times> Request \<times> teeReader option) + (Request \<times> teeReader option)) option"
where
  "readRequest mime r =
     (let body = teeBody r
      in (case drainBody r body of
            None \<Rightarrow> None
          | Some (Some err, body1) \<Rightarrow>
              Some (Inl (Wrap ''test server failed to read the request body: '' err, r, body1))
          | Some (None, body1) \<Rightarrow>
              (case ParseForm mime r body1 of
                 None \<Rightarrow> None
               | Some ((Some err, r2), body2) \<Rightarrow>
                   Some (Inl (Wrap ''test server failed to parse query string and form data: '' err,
                              r2, body2))
               | Some ((None, r2), body2) \<Rightarrow> Some (Inr (r2, body2)))))"

text \<open>
  \<^verbatim>\<open>ServeHTTP\<close> (lines 82 to 167) on the writer \<open>w\<close> of the caller and the request
  \<open>r\<close>. \<open>None\<close> is a panic of the handler: of the read of a \<^verbatim>\<open>nil\<close> body, or of
  \<^verbatim>\<open>WriteHeader\<close> on the recorder when the response to serve has a status outside 100 to
  999.
\<close>

definition ServeHTTP ::
  "mime \<Rightarrow> nat writer \<Rightarrow> Request \<Rightarrow> HTTPTestServer \<times> sinks \<Rightarrow> (HTTPTestServer \<times> sinks) option"
where
  "ServeHTTP mime w r st = (case st of (srv, s0) \<Rightarrow>
     (case NewRecorder s0 of (responseRecorder, s) \<Rightarrow>
        (let mw = newMultiTargetHTTPResponseWriter
                    [Target (Recorder responseRecorder), map_writer Client w]
         in (case readRequest mime r of
               None \<Rightarrow> None
             | Some (Inl (werr, r1, body1)) \<Rightarrow>
                 handleInternalError (MultiTarget mw)
                   (serverRecord r1 responseRecorder body1) werr (srv, s)
             | Some (Inr (r1, body1)) \<Rightarrow>
                 respond mw (serverRecord r1 responseRecorder body1) (srv, s)))))"

subsection \<open>Observing the server\<close>

text \<open>A run of the handler over several requests, each with the writer of its caller.\<close>

fun serveAll ::
  "mime \<Rightarrow> (nat writer \<times> Request) list \<Rightarrow> HTTPTestServer \<times> sinks \<Rightarrow> (HTTPTestServer \<times> sinks) option"
where
  "serveAll mime [] st = Some st"
| "serveAll mime ((w, r) # reqs) st =
     (case ServeHTTP mime w r st of None \<Rightarrow> None | Some st' \<Rightarrow> serveAll mime reqs st')"

text \<open>The calls a sink received between two states of the sinks.\<close>

definition newCalls :: "addr \<Rightarrow> sinks \<Rightarrow> sinks \<Rightarrow> call list" where
  "newCalls a s s' = map snd (filter (\<lambda>ev. fst ev = a) (drop (length (trace s)) (trace s')))"

text \<open>
  The calls that make up a predefined response: its headers, value by value, its status,
  and its body when it has one.
\<close>

definition responseCalls :: "PredefinedServerResponse \<Rightarrow> call list" where
  "responseCalls p =
     concat (map (\<lambda>hv. map (HeaderAdd (fst hv)) (snd hv)) (Headers p))
     @ [WriteHeaderCall (Status p)]
     @ (if length (PredefinedServerResponse.Body p) > 0
        then [WriteCall (PredefinedServerResponse.Body p)] else [])"

text \<open>
  A request handled between the states \<open>s\<close> and \<open>s'\<close> was served the response \<open>p\<close> when
  the recorder of its exchange, created in \<open>s\<close>, first received the calls of \<open>p\<close>. The
  handler puts the recorder first among its targets ``so it will always record the response
  even in case the server fails to write the response to the client connection'' (lines 93
  to 96).
\<close>

definition served :: "PredefinedServerResponse \<Rightarrow> sinks \<Rightarrow> sinks \<Rightarrow> bool" where
  "served p s s' = prefix (responseCalls p) (newCalls (Recorder (recorders s)) s s')"

text \<open>
  The calls that \<^verbatim>\<open>headersAdd\<close> makes on the targets \<open>mw\<close>; the calls by which the
  handler writes the headers and the status of the response \<open>p\<close> to the targets \<open>mw\<close>:
  each value of each header on the header map of each target, then the status on every
  sink; and the calls by which it writes the whole response when every \<^verbatim>\<open>Write\<close>
  succeeds: the same, then the body, if there is one, on every sink.
\<close>

definition headerEvents :: "addr writer list \<Rightarrow> string \<Rightarrow> string \<Rightarrow> (addr \<times> call) list" where
  "headerEvents mw k v =
     concat (map (\<lambda>t. case Header t of None \<Rightarrow> [] | Some a \<Rightarrow> [(a, HeaderAdd k v)]) mw)"

definition statusEvents ::
  "addr writer list \<Rightarrow> PredefinedServerResponse \<Rightarrow> (addr \<times> call) list" where
  "statusEvents mw p =
     concat (map (\<lambda>hv. concat (map (headerEvents mw (fst hv)) (snd hv))) (Headers p))
     @ map (\<lambda>a. (a, WriteHeaderCall (Status p))) (leaves_targets mw)"

definition responseEvents ::
  "addr writer list \<Rightarrow> PredefinedServerResponse \<Rightarrow> (addr \<times> call) list" where
  "responseEvents mw p =
     statusEvents mw p
     @ (if length (PredefinedServerResponse.Body p) > 0
        then map (\<lambda>a. (a, WriteCall (PredefinedServerResponse.Body p))) (leaves_targets mw)
        else [])"

text \<open>The response of line 127, served when the queue is empty.\<close>

definition notFound :: PredefinedServerResponse where
  "notFound = \<lparr>Status = 404, Headers = [], Body = []\<rparr>"

text \<open>The calls of the response to an internal failure, as lines 266 to 268 make them.\<close>

definition errorCalls :: "error \<Rightarrow> call list" where
  "errorCalls err =
     [HeaderSet ''Content-Type'' ''text/plain'', WriteHeaderCall 500, WriteCall (Error err)]"

subsection \<open>Encoding form values\<close>

text \<open>
  \<^verbatim>\<open>url.QueryEscape\<close> and \<^verbatim>\<open>url.Values.Encode\<close> of the standard library, which the
  tests use to build and to check the body of a form request.
\<close>

definition shouldEscape :: "char \<Rightarrow> bool" where
  "shouldEscape c = (let n = (of_char c :: nat) in
     \<not> ((97 \<le> n \<and> n \<le> 122) \<or> (65 \<le> n \<and> n \<le> 90) \<or> (48 \<le> n \<and> n \<le> 57)
        \<or> c \<in> set ''-_.~''))"

definition upperhex :: "nat \<Rightarrow> char" where
  "upperhex n = ''0123456789ABCDEF'' ! (n mod 16)"

fun QueryEscape :: "string \<Rightarrow> string" where
  "QueryEscape [] = []"
| "QueryEscape (c # cs) =
     (if shouldEscape c
      then (if c = CHR '' '' then ''+''
            else [CHR ''%'', upperhex (of_char c div 16), upperhex (of_char c mod 16)])
      else [c]) @ QueryEscape cs"

text \<open>The order of Go strings, byte by byte, and \<^verbatim>\<open>slices.Sort\<close> on keys.\<close>

fun stringLess :: "string \<Rightarrow> string \<Rightarrow> bool" where
  "stringLess [] [] = False"
| "stringLess [] (y # ys) = True"
| "stringLess (x # xs) [] = False"
| "stringLess (x # xs) (y # ys) =
     ((of_char x :: nat) < of_char y \<or> (x = y \<and> stringLess xs ys))"

fun insertKey :: "string \<Rightarrow> string list \<Rightarrow> string list" where
  "insertKey k [] = [k]"
| "insertKey k (k' # ks) = (if stringLess k' k then k' # insertKey k ks else k # k' # ks)"

fun sortKeys :: "string list \<Rightarrow> string list" where
  "sortKeys [] = []"
| "sortKeys (k # ks) = insertKey k (sortKeys ks)"

fun lookupValues :: "Values \<Rightarrow> string \<Rightarrow> string list" where
  "lookupValues [] k = []"
| "lookupValues ((k', vs) # m) k = (if k = k' then vs else lookupValues m k)"

fun joinWith :: "char \<Rightarrow> string list \<Rightarrow> string" where
  "joinWith sep [] = []"
| "joinWith sep [x] = x"
| "joinWith sep (x # y # ys) = x @ sep # joinWith sep (y # ys)"

definition Encode :: "Values \<Rightarrow> string" where
  "Encode v =
     joinWith CHR ''&''
       (concat (map (\<lambda>k. map (\<lambda>val. QueryEscape k @ CHR ''='' # QueryEscape val) (lookupValues v k))
                    (sortKeys (map fst v))))"

subsection \<open>Notions used in the proofs\<close>

text \<open>
  Between \<open>s\<close> and \<open>s'\<close> the sinks only received calls, all of them on sinks in \<open>A\<close>.
\<close>

definition within :: "addr set \<Rightarrow> sinks \<Rightarrow> sinks \<Rightarrow> bool" where
  "within A s s' = (\<exists>evs. s' = s\<lparr>trace := trace s @ evs\<rparr> \<and> fst ` set evs \<subseteq> A)"

text \<open>
  Between \<open>s\<close> and \<open>s'\<close> the sinks only received calls, and the recorder \<open>k\<close> received
  exactly the calls \<open>cs\<close>.
\<close>

definition recorded :: "nat \<Rightarrow> call list \<Rightarrow> sinks \<Rightarrow> sinks \<Rightarrow> bool" where
  "recorded k cs s s' = (within UNIV s s' \<and> newCalls (Recorder k) s s' = cs)"

text \<open>The failure of line 157.\<close>

definition writeFailure :: "error \<Rightarrow> error" where
  "writeFailure e = Wrap ''test server failed to write the predefined response: '' e"

text \<open>
  The bytes of a body \<open>d\<close> that the handler reads through the tee reader: all of them when
  line 104 drains the body, and else what \<^verbatim>\<open>ParseForm\<close> reads.
\<close>

definition captured :: "Request \<Rightarrow> bytes \<Rightarrow> bytes" where
  "captured r d =
     (if ContentType r \<noteq> ''application/x-www-form-urlencoded'' then d
      else if PostForm r = None \<and> (Method r = ''POST'' \<or> Method r = ''PUT'' \<or> Method r = ''PATCH'')
      then take (maxFormSize + 1) d
      else [])"

subsection \<open>Example inputs\<close>

text \<open>
  A media type parser that returns the content type as it is, which is what the library
  does on a bare media type in lower case.
\<close>

definition bareMime :: mime where
  "bareMime ct = (ct, None)"

text \<open>
  Sinks on which nothing happened yet. In \<open>quiet\<close> every write of the caller's sinks
  succeeds and they panic on a status code outside 100 to 999, as the writers of
  \<^verbatim>\<open>net/http\<close> and \<^verbatim>\<open>httptest\<close> do; in \<open>broken\<close> every write fails and every status
  code is taken, as the \<^verbatim>\<open>mockResponseWriter\<close> of the tests does.
\<close>

definition quiet :: sinks where
  "quiet = \<lparr>trace = [], recorders = 0, clientWrite = (\<lambda>tr n d. (int (length d), None)),
            clientWriteHeader = (\<lambda>tr n c. False)\<rparr>"

definition broken :: sinks where
  "broken = \<lparr>trace = [], recorders = 0, clientWrite = (\<lambda>tr n d. (0, Some (Err ''PWNED''))),
             clientWriteHeader = (\<lambda>tr n c. True)\<rparr>"

text \<open>
  Requests: a \<^verbatim>\<open>GET\<close> without body; a \<^verbatim>\<open>POST\<close> whose body fails when read, as the
  \<^verbatim>\<open>mockReadCloser\<close> of the tests does; a \<^verbatim>\<open>GET\<close> with a query string that does
  not parse; a \<^verbatim>\<open>POST\<close> of a JSON text; a \<^verbatim>\<open>POST\<close> of a form.
\<close>

definition getRequest :: Request where
  "getRequest = \<lparr>Method = ''GET'', RawQuery = [], ContentType = [],
     Body = Some (Reader [] None), PostForm = None, Form = None\<rparr>"

definition failingRequest :: Request where
  "failingRequest = \<lparr>Method = ''POST'', RawQuery = [], ContentType = [],
     Body = Some (Reader [] (Some (Err ''PWNED''))), PostForm = None, Form = None\<rparr>"

definition badQueryRequest :: Request where
  "badQueryRequest = \<lparr>Method = ''GET'', RawQuery = ''a=%'', ContentType = [],
     Body = Some (Reader [] None), PostForm = None, Form = None\<rparr>"

definition jsonRequest :: Request where
  "jsonRequest = \<lparr>Method = ''POST'', RawQuery = [], ContentType = ''application/json'',
     Body = Some (Reader ''{}'' None), PostForm = None, Form = None\<rparr>"

definition formRequest :: Request where
  "formRequest = \<lparr>Method = ''POST'', RawQuery = [],
     ContentType = ''application/x-www-form-urlencoded'',
     Body = Some (Reader ''b=2&a=1'' None), PostForm = None, Form = None\<rparr>"

text \<open>
  Predefined responses: 200 with a body, 204 without, and the zero value
  \<^verbatim>\<open>PredefinedServerResponse{}\<close>, whose status is 0.
\<close>

definition responseA :: PredefinedServerResponse where
  "responseA = \<lparr>Status = 200, Headers = [(''Content-Type'', [''application/json''])], Body = ''{}''\<rparr>"

definition responseB :: PredefinedServerResponse where
  "responseB = \<lparr>Status = 204, Headers = [], Body = []\<rparr>"

definition zeroResponse :: PredefinedServerResponse where
  "zeroResponse = \<lparr>Status = 0, Headers = [], Body = []\<rparr>"

section \<open>Properties\<close>

subsection \<open>Calls and sinks\<close>

lemma emit_fields [simp]:
  "trace (emit a c s) = trace s @ [(a, c)]"
  "recorders (emit a c s) = recorders s"
  "clientWrite (emit a c s) = clientWrite s"
  "clientWriteHeader (emit a c s) = clientWriteHeader s"
  by (simp_all add: emit_def)

lemma within_refl [simp]: "within A s s"
  unfolding within_def by (rule exI [of _ "[]"]) simp

lemma within_trans: "within A s s' \<Longrightarrow> within A s' s'' \<Longrightarrow> within A s s''"
  unfolding within_def
proof (elim exE conjE)
  fix evs evs'
  assume "s' = s\<lparr>trace := trace s @ evs\<rparr>" "fst ` set evs \<subseteq> A"
    "s'' = s'\<lparr>trace := trace s' @ evs'\<rparr>" "fst ` set evs' \<subseteq> A"
  then have "s'' = s\<lparr>trace := trace s @ (evs @ evs')\<rparr> \<and> fst ` set (evs @ evs') \<subseteq> A"
    by auto
  then show "\<exists>evs. s'' = s\<lparr>trace := trace s @ evs\<rparr> \<and> fst ` set evs \<subseteq> A" by blast
qed

lemma within_mono: "within A s s' \<Longrightarrow> A \<subseteq> B \<Longrightarrow> within B s s'"
  unfolding within_def by blast

lemma within_emit: "a \<in> A \<Longrightarrow> within A s (emit a c s)"
  unfolding within_def by (rule exI [of _ "[(a, c)]"]) (simp add: emit_def)

lemma within_fields:
  "within A s s' \<Longrightarrow> recorders s' = recorders s \<and> clientWrite s' = clientWrite s
     \<and> clientWriteHeader s' = clientWriteHeader s \<and> prefix (trace s) (trace s')"
  unfolding within_def by auto

lemma Header_leaves: "Header w = Some a \<Longrightarrow> a \<in> set (leaves w)"
  by (induction w rule: Header.induct) simp_all

lemma within_Header_Add: "within (set (leaves w)) s (Header_Add k v w s)"
  by (simp add: Header_Add_def within_emit Header_leaves split: option.splits)

lemma within_Header_Set: "within (set (leaves w)) s (Header_Set k v w s)"
  by (simp add: Header_Set_def within_emit Header_leaves split: option.splits)

lemma checkWriteHeaderCode_500 [simp]: "checkWriteHeaderCode 500"
  by (simp add: checkWriteHeaderCode_def)

lemma checkWriteHeaderCode_404 [simp]: "checkWriteHeaderCode 404"
  by (simp add: checkWriteHeaderCode_def)

lemma sinkWriteHeader_valid: "checkWriteHeaderCode c \<Longrightarrow> sinkWriteHeader s a c"
  by (cases a) simp_all

lemma WriteHeader_Some:
  "WriteHeader c w s = Some s' \<Longrightarrow>
     s' = s\<lparr>trace := trace s @ map (\<lambda>a. (a, WriteHeaderCall c)) (leaves w)\<rparr>"
  "WriteHeader_targets c ts s = Some s' \<Longrightarrow>
     s' = s\<lparr>trace := trace s @ map (\<lambda>a. (a, WriteHeaderCall c)) (leaves_targets ts)\<rparr>"
proof (induction c w s and c ts s arbitrary: s' and s'
    rule: WriteHeader_WriteHeader_targets.induct)
  case (1 c a s)
  then show ?case by (simp add: emit_def split: if_splits)
next
  case (2 c ts s)
  then show ?case by simp
next
  case (3 c s)
  then show ?case by simp
next
  case (4 c t ts s)
  from "4.prems" obtain s1 where a: "WriteHeader c t s = Some s1"
    and b: "WriteHeader_targets c ts s1 = Some s'"
    by (auto split: option.splits)
  from "4.IH"(1) [OF a] have 1: "s1 = s\<lparr>trace := trace s @ map (\<lambda>a. (a, WriteHeaderCall c)) (leaves t)\<rparr>" .
  from "4.IH"(2) [OF a b]
  have 2: "s' = s1\<lparr>trace := trace s1 @ map (\<lambda>a. (a, WriteHeaderCall c)) (leaves_targets ts)\<rparr>" .
  show ?case unfolding 2 unfolding 1 by simp
qed

lemma WriteHeader_returns:
  "checkWriteHeaderCode c \<Longrightarrow> WriteHeader c w s \<noteq> None"
  "checkWriteHeaderCode c \<Longrightarrow> WriteHeader_targets c ts s \<noteq> None"
  by (induction c w s and c ts s rule: WriteHeader_WriteHeader_targets.induct)
     (auto simp: sinkWriteHeader_valid)

lemma WriteHeader_valid:
  assumes "checkWriteHeaderCode c"
  shows "WriteHeader c w s
           = Some (s\<lparr>trace := trace s @ map (\<lambda>a. (a, WriteHeaderCall c)) (leaves w)\<rparr>)"
    and "WriteHeader_targets c ts s
           = Some (s\<lparr>trace := trace s @ map (\<lambda>a. (a, WriteHeaderCall c)) (leaves_targets ts)\<rparr>)"
  using WriteHeader_returns [OF assms] WriteHeader_Some by blast+

lemma within_WriteHeader: "WriteHeader c w s = Some s' \<Longrightarrow> within (set (leaves w)) s s'"
  unfolding within_def
  by (rule exI [of _ "map (\<lambda>a. (a, WriteHeaderCall c)) (leaves w)"])
     (auto dest: WriteHeader_Some(1))

lemma within_Write:
  "within (set (leaves w)) s (snd (Write d w s))"
  "within (set (leaves_targets ts)) s (snd (Write_targets d ts res s))"
proof (induction d w s and d ts res s rule: Write_Write_targets.induct)
  case (1 d a s)
  then show ?case by (simp add: within_emit)
next
  case (2 d ts s)
  then show ?case by simp
next
  case (3 d res s)
  then show ?case by simp
next
  case (4 d t ts res s)
  obtain r eo s' where w: "Write d t s = ((r, eo), s')"
    by (metis prod.exhaust)
  from "4.IH"(1) w have a: "within (set (leaves t)) s s'" by simp
  show ?case
  proof (cases eo)
    case None
    with "4.IH"(2) [of "(r, eo)" s' r eo] w
    have "within (set (leaves_targets ts)) s' (snd (Write_targets d ts (r, None) s'))"
      by simp
    with a have "within (set (leaves t) \<union> set (leaves_targets ts)) s
        (snd (Write_targets d ts (r, None) s'))"
      by (meson within_mono within_trans Un_upper1 Un_upper2)
    with w None show ?thesis by simp
  next
    case (Some e)
    with a w show ?thesis by (auto intro: within_mono)
  qed
qed


lemma Write_targets_append:
  "Write_targets d (pre @ post) (r0, None) s =
     (case Write_targets d pre (r0, None) s of
        ((r, Some e), s') \<Rightarrow> ((r, Some e), s')
      | ((r, None), s') \<Rightarrow> Write_targets d post (r, None) s')"
  by (induction pre arbitrary: r0 s) (auto split: prod.splits option.splits)

lemma newCalls_trace: "trace s = trace t \<Longrightarrow> newCalls a s s' = newCalls a t s'"
  by (simp add: newCalls_def)

lemma newCalls_within_notin: "within A s s' \<Longrightarrow> a \<notin> A \<Longrightarrow> newCalls a s s' = []"
  unfolding within_def newCalls_def by (force simp: filter_empty_conv)

lemma newCalls_trans:
  "within A s s' \<Longrightarrow> within B s' s'' \<Longrightarrow> newCalls a s s'' = newCalls a s s' @ newCalls a s' s''"
  unfolding within_def newCalls_def by auto

lemma newCalls_emit:
  "newCalls a s (emit b c s) = (if a = b then [c] else [])"
  by (simp add: newCalls_def)

lemma newCalls_self [simp]: "newCalls a s s = []"
  by (simp add: newCalls_def)


lemma recorded_refl: "recorded k [] s s"
  by (simp add: recorded_def)

lemma recorded_trans:
  "recorded k cs s s' \<Longrightarrow> recorded k cs' s' s'' \<Longrightarrow> recorded k (cs @ cs') s s''"
  unfolding recorded_def using within_trans newCalls_trans by metis

lemma recorded_emit: "recorded k [c] s (emit (Recorder k) c s)"
  by (simp add: recorded_def within_emit newCalls_emit)

lemma recorded_other: "within A s s' \<Longrightarrow> Recorder k \<notin> A \<Longrightarrow> recorded k [] s s'"
  unfolding recorded_def using within_mono newCalls_within_notin by (metis subset_UNIV)

lemma leaves_map_writer:
  "leaves (map_writer f w) = map f (leaves w)"
  "leaves_targets (map (map_writer f) ts) = map f (leaves_targets ts)"
  by (induction w and ts rule: leaves_leaves_targets.induct) simp_all

lemma Recorder_notin_Client: "Recorder k \<notin> set (leaves (map_writer Client w))"
  by (auto simp: leaves_map_writer)

lemma recorded_headersAdd:
  assumes "Recorder k \<notin> set (leaves cw)"
  shows "recorded k [HeaderAdd h v] s (headersAdd h v [Target (Recorder k), cw] s)"
proof -
  let ?s1 = "emit (Recorder k) (HeaderAdd h v) s"
  have "recorded k [HeaderAdd h v] s ?s1" by (rule recorded_emit)
  moreover have "recorded k [] ?s1 (Header_Add h v cw ?s1)"
    using within_Header_Add assms by (rule recorded_other)
  ultimately have "recorded k ([HeaderAdd h v] @ []) s (Header_Add h v cw ?s1)"
    by (rule recorded_trans)
  then show ?thesis by (simp add: Header_Add_def)
qed

lemma recorded_addValues:
  assumes "Recorder k \<notin> set (leaves cw)"
  shows "recorded k (map (HeaderAdd h) vs) s (addValues h vs [Target (Recorder k), cw] s)"
proof (induction vs arbitrary: s)
  case Nil
  then show ?case by (simp add: recorded_refl)
next
  case (Cons v vs)
  have "recorded k ([HeaderAdd h v] @ map (HeaderAdd h) vs) s
          (addValues h vs [Target (Recorder k), cw] (headersAdd h v [Target (Recorder k), cw] s))"
    using recorded_headersAdd [OF assms] Cons.IH by (rule recorded_trans)
  then show ?case by simp
qed

lemma recorded_addHeaders:
  assumes "Recorder k \<notin> set (leaves cw)"
  shows "recorded k (concat (map (\<lambda>hv. map (HeaderAdd (fst hv)) (snd hv)) hs)) s
           (addHeaders hs [Target (Recorder k), cw] s)"
proof (induction hs arbitrary: s)
  case Nil
  then show ?case by (simp add: recorded_refl)
next
  case (Cons hv hs)
  obtain h vs where hv: "hv = (h, vs)" by (cases hv)
  have "recorded k (map (HeaderAdd h) vs @ concat (map (\<lambda>hv. map (HeaderAdd (fst hv)) (snd hv)) hs)) s
          (addHeaders hs [Target (Recorder k), cw] (addValues h vs [Target (Recorder k), cw] s))"
    using recorded_addValues [OF assms] Cons.IH by (rule recorded_trans)
  then show ?case by (simp add: hv)
qed

lemma recorded_WriteHeader:
  assumes "Recorder k \<notin> set (leaves cw)"
    and "WriteHeader c (MultiTarget [Target (Recorder k), cw]) s = Some s'"
  shows "recorded k [WriteHeaderCall c] s s'"
proof -
  let ?s1 = "emit (Recorder k) (WriteHeaderCall c) s"
  from assms(2) have w: "WriteHeader c cw ?s1 = Some s'"
    by (auto split: if_splits option.splits)
  have "recorded k [WriteHeaderCall c] s ?s1" by (rule recorded_emit)
  moreover have "recorded k [] ?s1 s'"
    using within_WriteHeader [OF w] assms(1) by (rule recorded_other)
  ultimately have "recorded k ([WriteHeaderCall c] @ []) s s'"
    by (rule recorded_trans)
  then show ?thesis by simp
qed

lemma Write_mw:
  "Write d (MultiTarget [Target (Recorder k), cw]) s
     = Write d cw (emit (Recorder k) (WriteCall d) s)"
  by (auto split: prod.splits option.splits)

lemma recorded_Write:
  assumes "Recorder k \<notin> set (leaves cw)"
  shows "recorded k [WriteCall d] s (snd (Write d (MultiTarget [Target (Recorder k), cw]) s))"
proof -
  let ?s1 = "emit (Recorder k) (WriteCall d) s"
  have "recorded k [WriteCall d] s ?s1" by (rule recorded_emit)
  moreover have "recorded k [] ?s1 (snd (Write d cw ?s1))"
    using within_Write(1) assms by (rule recorded_other)
  ultimately have "recorded k ([WriteCall d] @ []) s (snd (Write d cw ?s1))"
    by (rule recorded_trans)
  then show ?thesis unfolding Write_mw by simp
qed

lemma recorded_Header_Set:
  "recorded k [HeaderSet h v] s (Header_Set h v (MultiTarget (Target (Recorder k) # ts)) s)"
  by (simp add: Header_Set_def recorded_emit)

lemma handleInternalError_eq:
  "handleInternalError w rec err (srv, s)
     = Some (srv\<lparr>records := records srv @ [rec\<lparr>ServerError := Some err\<rparr>]\<rparr>,
             snd (Write (Error err) w
                    (s\<lparr>trace := trace s
                         @ (case Header w of
                              None \<Rightarrow> []
                            | Some a \<Rightarrow> [(a, HeaderSet ''Content-Type'' ''text/plain'')])
                         @ map (\<lambda>a. (a, WriteHeaderCall 500)) (leaves w)\<rparr>)))"
  by (cases "Header w")
     (simp_all add: handleInternalError_def Let_def Header_Set_def emit_def WriteHeader_valid(1)
        del: WriteHeader.simps Write.simps)

lemma handleInternalError_mw:
  assumes "Recorder k \<notin> set (leaves cw)"
  shows "\<exists>s'. handleInternalError (MultiTarget [Target (Recorder k), cw]) rec err (srv, s)
           = Some (srv\<lparr>records := records srv @ [rec\<lparr>ServerError := Some err\<rparr>]\<rparr>, s')
         \<and> recorded k (errorCalls err) s s'"
proof -
  let ?mw = "MultiTarget [Target (Recorder k), cw]"
  let ?s1 = "Header_Set ''Content-Type'' ''text/plain'' ?mw s"
  obtain s2 where w: "WriteHeader 500 ?mw ?s1 = Some s2"
    using WriteHeader_returns(1) [of 500 ?mw ?s1] by auto
  let ?s3 = "snd (Write (Error err) ?mw s2)"
  have "recorded k [HeaderSet ''Content-Type'' ''text/plain''] s ?s1"
    by (rule recorded_Header_Set)
  moreover have "recorded k [WriteHeaderCall 500] ?s1 s2"
    using assms w by (rule recorded_WriteHeader)
  moreover have "recorded k [WriteCall (Error err)] s2 ?s3"
    by (rule recorded_Write [OF assms])
  ultimately have "recorded k (errorCalls err) s ?s3"
    using recorded_trans [of k _ s ?s1 _ s2] recorded_trans [of k _ s s2 _ ?s3]
    by (fastforce simp: errorCalls_def)
  then show ?thesis using w
    by (simp add: handleInternalError_def Let_def del: WriteHeader.simps Write.simps)
qed

subsection \<open>The handler, step by step\<close>

lemma selectResponse_cases:
  "selectResponse srv =
     (case responses srv of
        [] \<Rightarrow> (notFound, srv)
      | [p] \<Rightarrow> (p, srv)
      | p # q # qs \<Rightarrow> (p, srv\<lparr>responses := q # qs\<rparr>))"
  by (simp add: selectResponse_def notFound_def Let_def split: list.splits)

lemma selectResponse_records [simp]: "records (snd (selectResponse srv)) = records srv"
  by (simp add: selectResponse_cases split: list.splits)

lemma respond_mw:
  assumes "Recorder k \<notin> set (leaves cw)" and sel: "selectResponse srv = (p, srv1)"
  shows "(respond [Target (Recorder k), cw] rec (srv, s) = None
            \<and> \<not> checkWriteHeaderCode (Status p))
       \<or> (\<exists>s' rec' tail.
           respond [Target (Recorder k), cw] rec (srv, s)
             = Some (srv1\<lparr>records := records srv @ [rec']\<rparr>, s')
         \<and> recorded k (responseCalls p @ tail) s s'
         \<and> ((rec' = rec \<and> tail = [])
            \<or> (\<exists>e. PredefinedServerResponse.Body p \<noteq> []
                 \<and> rec' = rec\<lparr>ServerError := Some (writeFailure e)\<rparr>
                 \<and> tail = errorCalls (writeFailure e))))"
proof -
  have rs: "records srv1 = records srv" using selectResponse_records [of srv] sel by simp
  let ?mw = "[Target (Recorder k), cw]"
  let ?s1 = "addHeaders (Headers p) ?mw s"
  let ?hc = "concat (map (\<lambda>hv. map (HeaderAdd (fst hv)) (snd hv)) (Headers p))"
  have r1: "recorded k ?hc s ?s1" by (rule recorded_addHeaders [OF assms(1)])
  show ?thesis
  proof (cases "WriteHeader (Status p) (MultiTarget ?mw) ?s1")
    case None
    then have "respond ?mw rec (srv, s) = None"
      by (simp add: respond_def sel Let_def del: WriteHeader.simps)
    moreover have "\<not> checkWriteHeaderCode (Status p)"
      using None WriteHeader_returns(1) by blast
    ultimately show ?thesis by blast
  next
    case (Some s2)
    have r2: "recorded k [WriteHeaderCall (Status p)] ?s1 s2"
      using assms(1) Some by (rule recorded_WriteHeader)
    have r12: "recorded k (?hc @ [WriteHeaderCall (Status p)]) s s2"
      using r1 r2 by (rule recorded_trans)
    have "\<exists>s' rec' tail.
           respond ?mw rec (srv, s) = Some (srv1\<lparr>records := records srv @ [rec']\<rparr>, s')
         \<and> recorded k (responseCalls p @ tail) s s'
         \<and> ((rec' = rec \<and> tail = [])
            \<or> (\<exists>e. PredefinedServerResponse.Body p \<noteq> []
                 \<and> rec' = rec\<lparr>ServerError := Some (writeFailure e)\<rparr>
                 \<and> tail = errorCalls (writeFailure e)))"
    proof (cases "PredefinedServerResponse.Body p = []")
      case True
      then have a: "respond ?mw rec (srv, s) = Some (srv1\<lparr>records := records srv @ [rec]\<rparr>, s2)"
        using Some by (simp add: respond_def sel Let_def rs del: WriteHeader.simps)
      have b: "recorded k (responseCalls p @ []) s s2"
        using r12 True by (simp add: responseCalls_def)
      from a b show ?thesis by blast
    next
      case False
      let ?d = "PredefinedServerResponse.Body p"
      obtain n eo s3 where w: "Write ?d (MultiTarget ?mw) s2 = ((n, eo), s3)"
        by (metis prod.exhaust)
      have "recorded k [WriteCall ?d] s2 s3"
        using recorded_Write [OF assms(1), of ?d s2] w by simp
      with r12 have r3: "recorded k ((?hc @ [WriteHeaderCall (Status p)]) @ [WriteCall ?d]) s s3"
        by (rule recorded_trans)
      then have r3': "recorded k (responseCalls p) s s3"
        using False by (simp add: responseCalls_def)
      show ?thesis
      proof (cases eo)
        case None
        then have a: "respond ?mw rec (srv, s) = Some (srv1\<lparr>records := records srv @ [rec]\<rparr>, s3)"
          using False w Some
          by (simp add: respond_def sel Let_def rs del: Write.simps WriteHeader.simps)
        have b: "recorded k (responseCalls p @ []) s s3" using r3' by simp
        from a b show ?thesis by blast
      next
        case (Some e)
        then have eq: "respond ?mw rec (srv, s)
            = handleInternalError (MultiTarget ?mw) rec (writeFailure e) (srv1, s3)"
          using False w \<open>WriteHeader (Status p) (MultiTarget ?mw) ?s1 = Some s2\<close>
          by (simp add: respond_def sel Let_def writeFailure_def
                del: Write.simps WriteHeader.simps)
        obtain s4 where h: "handleInternalError (MultiTarget ?mw) rec (writeFailure e) (srv1, s3)
             = Some (srv1\<lparr>records := records srv1 @ [rec\<lparr>ServerError := Some (writeFailure e)\<rparr>]\<rparr>, s4)"
          and r4: "recorded k (errorCalls (writeFailure e)) s3 s4"
          using handleInternalError_mw [OF assms(1)] by blast
        have b: "recorded k (responseCalls p @ errorCalls (writeFailure e)) s s4"
          using r3' r4 by (rule recorded_trans)
        have a: "respond ?mw rec (srv, s)
            = Some (srv1\<lparr>records := records srv @ [rec\<lparr>ServerError := Some (writeFailure e)\<rparr>]\<rparr>, s4)"
          using eq h rs by simp
        from a b False show ?thesis by blast
      qed
    qed
    then show ?thesis by (rule disjI2)
  qed
qed

lemma Header_map_writer: "Header (map_writer f w) = map_option f (Header w)"
  by (induction w rule: Header.induct) simp_all

lemma headersAdd_eq: "headersAdd k v ts s = s\<lparr>trace := trace s @ headerEvents ts k v\<rparr>"
  by (induction ts arbitrary: s)
     (simp_all add: headerEvents_def Header_Add_def emit_def split: option.splits)

lemma addValues_eq:
  "addValues h vs ts s = s\<lparr>trace := trace s @ concat (map (headerEvents ts h) vs)\<rparr>"
  by (induction vs arbitrary: s) (simp_all add: headersAdd_eq)

lemma addHeaders_eq:
  "addHeaders hs ts s =
     s\<lparr>trace := trace s
         @ concat (map (\<lambda>hv. concat (map (headerEvents ts (fst hv)) (snd hv))) hs)\<rparr>"
  by (induction hs ts s rule: addHeaders.induct) (simp_all add: addValues_eq)

lemma Write_ok:
  "\<forall>tr n x. snd (clientWrite s tr n x) = None \<Longrightarrow>
     \<exists>r. Write d w s = ((r, None), s\<lparr>trace := trace s @ map (\<lambda>a. (a, WriteCall d)) (leaves w)\<rparr>)"
  "\<forall>tr n x. snd (clientWrite s tr n x) = None \<Longrightarrow> snd res = None \<Longrightarrow>
     \<exists>r. Write_targets d ts res s
          = ((r, None), s\<lparr>trace := trace s @ map (\<lambda>a. (a, WriteCall d)) (leaves_targets ts)\<rparr>)"
proof (induction d w s and d ts res s rule: Write_Write_targets.induct)
  case (1 d a s)
  show ?case
  proof (cases a)
    case (Recorder k)
    then show ?thesis by (simp add: emit_def)
  next
    case (Client n)
    from 1 have "snd (clientWrite s (trace s) n d) = None" by blast
    then obtain r where "clientWrite s (trace s) n d = (r, None)"
      by (cases "clientWrite s (trace s) n d") auto
    with Client show ?thesis by (simp add: emit_def)
  qed
next
  case (2 d ts s)
  then show ?case by simp
next
  case (3 d res s)
  then show ?case by (cases res) simp
next
  case (4 d t ts res s)
  from "4.IH"(1) [OF "4.prems"(1)] obtain r where
    w: "Write d t s = ((r, None), s\<lparr>trace := trace s @ map (\<lambda>a. (a, WriteCall d)) (leaves t)\<rparr>)"
    by blast
  let ?s1 = "s\<lparr>trace := trace s @ map (\<lambda>a. (a, WriteCall d)) (leaves t)\<rparr>"
  have c: "\<forall>tr n x. snd (clientWrite ?s1 tr n x) = None" using "4.prems"(1) by simp
  from "4.IH"(2) [of "(r, None)" ?s1 r None, OF w [symmetric] refl refl c] obtain r' where
    "Write_targets d ts (r, None) ?s1
       = ((r', None), ?s1\<lparr>trace := trace ?s1 @ map (\<lambda>a. (a, WriteCall d)) (leaves_targets ts)\<rparr>)"
    by auto
  with w show ?case by simp
qed

lemma respond_ok:
  assumes sel: "selectResponse srv = (p, srv1)" and "checkWriteHeaderCode (Status p)"
    and "\<forall>tr n x. snd (clientWrite s tr n x) = None"
  shows "respond mw rec (srv, s)
           = Some (srv1\<lparr>records := records srv @ [rec]\<rparr>,
                   s\<lparr>trace := trace s @ responseEvents mw p\<rparr>)"
proof -
  have rs: "records srv1 = records srv" using selectResponse_records [of srv] sel by simp
  let ?hs = "concat (map (\<lambda>hv. concat (map (headerEvents mw (fst hv)) (snd hv))) (Headers p))"
  let ?s1 = "s\<lparr>trace := trace s @ ?hs\<rparr>"
  let ?s2 = "?s1\<lparr>trace := trace ?s1
               @ map (\<lambda>a. (a, WriteHeaderCall (Status p))) (leaves (MultiTarget mw))\<rparr>"
  have h: "addHeaders (Headers p) mw s = ?s1" by (rule addHeaders_eq)
  have w: "WriteHeader (Status p) (MultiTarget mw) ?s1 = Some ?s2"
    using assms(2) by (rule WriteHeader_valid(1))
  show ?thesis
  proof (cases "PredefinedServerResponse.Body p = []")
    case True
    then show ?thesis
      unfolding respond_def prod.case sel h Let_def w option.case
      by (simp add: rs responseEvents_def statusEvents_def)
  next
    case False
    let ?d = "PredefinedServerResponse.Body p"
    have c: "\<forall>tr n x. snd (clientWrite ?s2 tr n x) = None" using assms(3) by simp
    from Write_ok(1) [OF c, of ?d "MultiTarget mw"] obtain r where
      wr: "Write ?d (MultiTarget mw) ?s2
         = ((r, None), ?s2\<lparr>trace := trace ?s2 @ map (\<lambda>a. (a, WriteCall ?d)) (leaves (MultiTarget mw))\<rparr>)"
      by blast
    show ?thesis
      unfolding respond_def prod.case sel h Let_def w option.case wr
      using False by (simp add: rs responseEvents_def statusEvents_def)
  qed
qed

lemma ReadAll_LimitReader_Some:
  "source t \<noteq> None \<Longrightarrow> \<exists>b e t'. ReadAll_LimitReader n t = Some ((b, e), t') \<and> source t' \<noteq> None
      \<and> buffer t' = buffer t @ take n (case source t of Some (Reader d x) \<Rightarrow> d | None \<Rightarrow> [])"
  by (cases "(n, t)" rule: ReadAll_LimitReader.cases) auto

lemma parsePostForm_Some:
  assumes "source t \<noteq> None"
  shows "\<exists>x t'. parsePostForm mime r (Some t) = Some (x, Some t') \<and> source t' \<noteq> None"
proof -
  obtain ct err where m: "ParseMediaType mime
      (if ContentType r = [] then ''application/octet-stream'' else ContentType r) = (ct, err)"
    by (metis prod.exhaust)
  obtain b e t' where l: "ReadAll_LimitReader (maxFormSize + 1) t = Some ((b, e), t')"
    "source t' \<noteq> None"
    using ReadAll_LimitReader_Some [OF assms] by blast
  show ?thesis
    using m l assms
    by (cases e; cases "ParseQuery b") (auto simp: parsePostForm_def simp del: ReadAll_LimitReader.simps)
qed

lemma ParseForm_Some:
  assumes "source t \<noteq> None"
  shows "\<exists>err r2 t'. ParseForm mime r (Some t) = Some ((err, r2), Some t') \<and> source t' \<noteq> None"
proof -
  obtain x t' where p: "parsePostForm mime r (Some t) = Some (x, Some t')" "source t' \<noteq> None"
    using parsePostForm_Some [OF assms] by blast
  obtain pf e0 where x: "x = (pf, e0)" by (cases x)
  obtain nv e1 where q: "ParseQuery (RawQuery r) = (nv, e1)" by (cases "ParseQuery (RawQuery r)")
  show ?thesis
    using p x q assms
    by (auto simp: ParseForm_def Let_def)
qed

lemma drainBody_teeBody:
  "drainBody r (teeBody r) =
     (if ContentType r = ''application/x-www-form-urlencoded'' then Some (None, teeBody r)
      else (case Request.Body r of
              None \<Rightarrow> None
            | Some (Reader d e) \<Rightarrow> Some (e, Some (TeeReader (Some (Reader [] e)) d))))"
  by (auto simp: drainBody_def copiesBody_def teeBody_def split: option.splits reader.splits)

lemma readRequest_total:
  assumes "Request.Body r \<noteq> None"
  shows "readRequest mime r \<noteq> None"
proof -
  obtain d e where b: "Request.Body r = Some (Reader d e)"
    using assms by (metis option.exhaust reader.exhaust)
  show ?thesis
  proof (cases "ContentType r = ''application/x-www-form-urlencoded''")
    case True
    obtain err r2 t' where "ParseForm mime r (Some (TeeReader (Some (Reader d e)) [])) = Some ((err, r2), Some t')"
      using ParseForm_Some [of "TeeReader (Some (Reader d e)) []" mime r] by force
    then show ?thesis using True b
      by (cases err) (simp_all add: readRequest_def drainBody_teeBody Let_def, simp_all add: teeBody_def)
  next
    case False
    show ?thesis
    proof (cases e)
      case None
      obtain err r2 t' where "ParseForm mime r (Some (TeeReader (Some (Reader [] None)) d)) = Some ((err, r2), Some t')"
        using ParseForm_Some [of "TeeReader (Some (Reader [] None)) d" mime r] by force
      then show ?thesis using False b None
        by (cases err) (simp_all add: readRequest_def drainBody_teeBody Let_def)
    next
      case (Some a)
      then show ?thesis using False b 
        by (simp add: readRequest_def drainBody_teeBody Let_def)
    qed
  qed
qed

lemma Write_prefix: "prefix (trace s) (trace (snd (Write d w s)))"
  using within_Write(1) [of w s d] within_fields by blast

lemma respond_prefix:
  assumes sel: "selectResponse srv = (p, srv1)"
    and "respond mw rec (srv, s) = Some (srv', s')"
  shows "prefix (trace s @ statusEvents mw p) (trace s')"
proof -
  let ?hs = "concat (map (\<lambda>hv. concat (map (headerEvents mw (fst hv)) (snd hv))) (Headers p))"
  let ?s1 = "s\<lparr>trace := trace s @ ?hs\<rparr>"
  have h: "addHeaders (Headers p) mw s = ?s1" by (rule addHeaders_eq)
  show ?thesis
  proof (cases "WriteHeader (Status p) (MultiTarget mw) ?s1")
    case None
    then have "respond mw rec (srv, s) = None"
      unfolding respond_def prod.case sel h Let_def by simp
    with assms(2) show ?thesis by simp
  next
    case (Some s2)
    from WriteHeader_Some(1) [OF Some]
    have t2: "trace s2 = trace s @ statusEvents mw p" by (simp add: statusEvents_def)
    show ?thesis
    proof (cases "PredefinedServerResponse.Body p = []")
      case True
      then have "respond mw rec (srv, s) = Some (srv1\<lparr>records := records srv1 @ [rec]\<rparr>, s2)"
        unfolding respond_def prod.case sel h Let_def Some option.case by simp
      with assms(2) t2 show ?thesis by simp
    next
      case False
      let ?d = "PredefinedServerResponse.Body p"
      obtain n eo s3 where w: "Write ?d (MultiTarget mw) s2 = ((n, eo), s3)"
        by (metis prod.exhaust)
      have p3: "prefix (trace s2) (trace s3)" using Write_prefix [of s2 ?d "MultiTarget mw"] w by simp
      show ?thesis
      proof (cases eo)
        case None
        then have "respond mw rec (srv, s) = Some (srv1\<lparr>records := records srv1 @ [rec]\<rparr>, s3)"
          unfolding respond_def prod.case sel h Let_def Some option.case w using False by simp
        with assms(2) p3 t2 show ?thesis by simp
      next
        case (Some e)
        let ?err = "Wrap ''test server failed to write the predefined response: '' e"
        let ?s4 = "s3\<lparr>trace := trace s3
                     @ (case Header (MultiTarget mw) of
                          None \<Rightarrow> []
                        | Some a \<Rightarrow> [(a, HeaderSet ''Content-Type'' ''text/plain'')])
                     @ map (\<lambda>a. (a, WriteHeaderCall 500)) (leaves (MultiTarget mw))\<rparr>"
        from Some have "respond mw rec (srv, s)
            = handleInternalError (MultiTarget mw) rec ?err (srv1, s3)"
          unfolding respond_def prod.case sel h Let_def
            \<open>WriteHeader (Status p) (MultiTarget mw) ?s1 = Some s2\<close> option.case w
          using False by simp
        with assms(2) have "s' = snd (Write (Error ?err) (MultiTarget mw) ?s4)"
          unfolding handleInternalError_eq by simp
        then have "prefix (trace ?s4) (trace s')"
          using Write_prefix [of ?s4 "Error ?err" "MultiTarget mw"] by simp
        then have "prefix (trace s3) (trace s')"
          by (simp add: append_prefixD)
        with p3 t2 show ?thesis by (metis prefix_order.order_trans)
      qed
    qed
  qed
qed

lemma ServeHTTP_None: "readRequest mime r = None \<Longrightarrow> ServeHTTP mime w r (srv, s) = None"
  by (simp add: ServeHTTP_def NewRecorder_def Let_def)

lemma ServeHTTP_Inl_eq:
  assumes "readRequest mime r = Some (Inl (werr, r1, b1))"
  shows "ServeHTTP mime w r (srv, s)
           = handleInternalError
               (MultiTarget [Target (Recorder (recorders s)), map_writer Client w])
               (serverRecord r1 (recorders s) b1) werr (srv, s\<lparr>recorders := Suc (recorders s)\<rparr>)"
  using assms
  by (simp add: ServeHTTP_def NewRecorder_def Let_def newMultiTargetHTTPResponseWriter_def)

lemma ServeHTTP_Inr_eq:
  assumes "readRequest mime r = Some (Inr (r1, b1))"
  shows "ServeHTTP mime w r (srv, s)
           = respond [Target (Recorder (recorders s)), map_writer Client w]
               (serverRecord r1 (recorders s) b1) (srv, s\<lparr>recorders := Suc (recorders s)\<rparr>)"
  using assms
  by (simp add: ServeHTTP_def NewRecorder_def Let_def newMultiTargetHTTPResponseWriter_def)

lemma ServeHTTP_Inl:
  assumes "readRequest mime r = Some (Inl (werr, r1, b1))"
  shows "\<exists>s'. ServeHTTP mime w r (srv, s)
           = Some (srv\<lparr>records := records srv
                      @ [(serverRecord r1 (recorders s) b1)\<lparr>ServerError := Some werr\<rparr>]\<rparr>, s')
         \<and> recorded (recorders s) (errorCalls werr) (s\<lparr>recorders := Suc (recorders s)\<rparr>) s'"
  unfolding ServeHTTP_Inl_eq [OF assms]
  by (rule handleInternalError_mw [OF Recorder_notin_Client])

lemma ServeHTTP_Inr:
  assumes "readRequest mime r = Some (Inr (r1, b1))" and "selectResponse srv = (p, srv1)"
  shows "(ServeHTTP mime w r (srv, s) = None \<and> \<not> checkWriteHeaderCode (Status p))
       \<or> (\<exists>s' rec' tail.
           ServeHTTP mime w r (srv, s) = Some (srv1\<lparr>records := records srv @ [rec']\<rparr>, s')
         \<and> recorded (recorders s) (responseCalls p @ tail) (s\<lparr>recorders := Suc (recorders s)\<rparr>) s'
         \<and> ((rec' = serverRecord r1 (recorders s) b1 \<and> tail = [])
            \<or> (\<exists>e. PredefinedServerResponse.Body p \<noteq> []
                 \<and> rec' = (serverRecord r1 (recorders s) b1)\<lparr>ServerError := Some (writeFailure e)\<rparr>
                 \<and> tail = errorCalls (writeFailure e))))"
  unfolding ServeHTTP_Inr_eq [OF assms(1)]
  by (rule respond_mw [OF Recorder_notin_Client assms(2)])

lemma recorded_served:
  "recorded (recorders s) (responseCalls p @ tail) (s\<lparr>recorders := n\<rparr>) s' \<Longrightarrow> served p s s'"
  unfolding recorded_def served_def
  using newCalls_trace [of "s\<lparr>recorders := n\<rparr>" s "Recorder (recorders s)" s']
  by (simp add: prefix_def)


lemma recorded_clientWrite:
  "recorded k cs (s\<lparr>recorders := n\<rparr>) s' \<Longrightarrow> clientWrite s' = clientWrite s"
  unfolding recorded_def using within_fields [of UNIV "s\<lparr>recorders := n\<rparr>" s'] by simp

lemma ServeHTTP_records:
  assumes "ServeHTTP mime w r (srv, s) = Some (srv', s')"
  shows "\<exists>rec. records srv' = records srv @ [rec]"
proof (cases "readRequest mime r")
  case None
  then show ?thesis using assms by (simp add: ServeHTTP_None)
next
  case (Some x)
  show ?thesis
  proof (cases x)
    case (Inl a)
    obtain werr r1 b1 where "a = (werr, r1, b1)" by (cases a)
    with Some Inl ServeHTTP_Inl [of mime r werr r1 b1 w srv s] assms show ?thesis by auto
  next
    case (Inr b)
    obtain r1 b1 where b: "b = (r1, b1)" by (cases b)
    obtain p srv1 where sel: "selectResponse srv = (p, srv1)" by (cases "selectResponse srv")
    from Some Inr b ServeHTTP_Inr [of mime r r1 b1 srv p srv1 w s] sel assms show ?thesis by auto
  qed
qed

lemma ServeHTTP_total:
  assumes "Request.Body r \<noteq> None"
    and "checkWriteHeaderCode (Status (fst (selectResponse srv)))"
  shows "\<exists>st. ServeHTTP mime w r (srv, s) = Some st"
proof -
  from assms(1) have "readRequest mime r \<noteq> None" by (rule readRequest_total)
  then obtain x where x: "readRequest mime r = Some x" by blast
  show ?thesis
  proof (cases x)
    case (Inl a)
    obtain werr r1 b1 where "a = (werr, r1, b1)" by (cases a)
    with x Inl ServeHTTP_Inl [of mime r werr r1 b1 w srv s] show ?thesis by auto
  next
    case (Inr b)
    obtain r1 b1 where b: "b = (r1, b1)" by (cases b)
    obtain p srv1 where sel: "selectResponse srv = (p, srv1)" by (cases "selectResponse srv")
    from x Inr b ServeHTTP_Inr [of mime r r1 b1 srv p srv1 w s] sel assms(2)
    show ?thesis by auto
  qed
qed

lemma ServeHTTP_serves:
  assumes "readRequest mime r = Some (Inr x)"
    and "checkWriteHeaderCode (Status (fst (selectResponse srv)))"
  shows "\<exists>srv' s'. ServeHTTP mime w r (srv, s) = Some (srv', s')
           \<and> served (fst (selectResponse srv)) s s'
           \<and> responses srv' = responses (snd (selectResponse srv))
           \<and> clientWrite s' = clientWrite s
           \<and> prefix (trace s
                       @ statusEvents [Target (Recorder (recorders s)), map_writer Client w]
                           (fst (selectResponse srv)))
                    (trace s')
           \<and> ((\<forall>tr n d. snd (clientWrite s tr n d) = None) \<longrightarrow>
                trace s' = trace s
                  @ responseEvents [Target (Recorder (recorders s)), map_writer Client w]
                      (fst (selectResponse srv)))"
proof -
  obtain r1 b1 where x: "x = (r1, b1)" by (cases x)
  obtain p srv1 where sel: "selectResponse srv = (p, srv1)" by (cases "selectResponse srv")
  from ServeHTTP_Inr [of mime r r1 b1 srv p srv1 w s] assms x sel
  obtain s' rec' tail where
    a: "ServeHTTP mime w r (srv, s) = Some (srv1\<lparr>records := records srv @ [rec']\<rparr>, s')"
    and b: "recorded (recorders s) (responseCalls p @ tail) (s\<lparr>recorders := Suc (recorders s)\<rparr>) s'"
    by auto
  from b have c: "served p s s'" by (rule recorded_served)
  from b have d: "clientWrite s' = clientWrite s" by (rule recorded_clientWrite)
  have e: "trace s' = trace s
      @ responseEvents [Target (Recorder (recorders s)), map_writer Client w] p"
    if ok: "\<forall>tr n d. snd (clientWrite s tr n d) = None"
  proof -
    let ?s0 = "s\<lparr>recorders := Suc (recorders s)\<rparr>"
    have "\<forall>tr n d. snd (clientWrite ?s0 tr n d) = None" using ok by simp
    from respond_ok [OF sel _ this, of "[Target (Recorder (recorders s)), map_writer Client w]"
        "serverRecord r1 (recorders s) b1"] assms(2) sel
    have "ServeHTTP mime w r (srv, s)
        = Some (srv1\<lparr>records := records srv @ [serverRecord r1 (recorders s) b1]\<rparr>,
                ?s0\<lparr>trace := trace ?s0
                   @ responseEvents [Target (Recorder (recorders s)), map_writer Client w] p\<rparr>)"
      using ServeHTTP_Inr_eq [of mime r r1 b1 w srv s] assms(1) x by simp
    with a have "s' = ?s0\<lparr>trace := trace ?s0
                   @ responseEvents [Target (Recorder (recorders s)), map_writer Client w] p\<rparr>"
      by simp
    then show ?thesis by simp
  qed
  have f: "prefix (trace s
             @ statusEvents [Target (Recorder (recorders s)), map_writer Client w] p)
          (trace s')"
    using respond_prefix [OF sel, of "[Target (Recorder (recorders s)), map_writer Client w]"
        "serverRecord r1 (recorders s) b1" "s\<lparr>recorders := Suc (recorders s)\<rparr>"
        "srv1\<lparr>records := records srv @ [rec']\<rparr>" s']
      a ServeHTTP_Inr_eq [of mime r r1 b1 w srv s] assms(1) x
    by simp
  from a c d e f sel show ?thesis by simp
qed

lemma selectResponse_nonempty:
  assumes "responses srv = q" and "q \<noteq> []"
  shows "fst (selectResponse srv) = q ! 0"
    and "responses (snd (selectResponse srv)) = drop (min 1 (length q - 1)) q"
  using assms by (auto simp: selectResponse_cases split: list.splits)

lemma serve_queue:
  assumes "q \<noteq> []" and "responses srv = q"
    and "\<forall>p \<in> set q. checkWriteHeaderCode (Status p)"
    and "\<forall>wr \<in> set reqs. \<exists>x. readRequest mime (snd wr) = Some (Inr x)"
    and "i < length reqs"
  shows "\<exists>st st'. serveAll mime (take i reqs) (srv, s) = Some st
           \<and> ServeHTTP mime (fst (reqs ! i)) (snd (reqs ! i)) st = Some st'
           \<and> served (q ! min i (length q - 1)) (snd st) (snd st')
           \<and> prefix (trace (snd st)
                       @ statusEvents
                           [Target (Recorder (recorders (snd st))),
                            map_writer Client (fst (reqs ! i))]
                           (q ! min i (length q - 1)))
                    (trace (snd st'))
           \<and> ((\<forall>tr n d. snd (clientWrite s tr n d) = None) \<longrightarrow>
                trace (snd st') = trace (snd st)
                  @ responseEvents
                      [Target (Recorder (recorders (snd st))), map_writer Client (fst (reqs ! i))]
                      (q ! min i (length q - 1)))
           \<and> responses (fst st') = drop (min (Suc i) (length q - 1)) q"
  using assms
proof (induction i arbitrary: reqs srv s q)
  case 0
  then obtain w r rest where reqs: "reqs = (w, r) # rest" by (cases reqs) auto
  with 0 obtain x where x: "readRequest mime r = Some (Inr x)" by auto
  note sel = selectResponse_nonempty [OF "0.prems"(2) "0.prems"(1)]
  have v: "checkWriteHeaderCode (Status (fst (selectResponse srv)))"
    using sel(1) "0.prems"(1,3) by (cases q) auto
  from ServeHTTP_serves [OF x v, of w s]
  obtain srv' s' where a: "ServeHTTP mime w r (srv, s) = Some (srv', s')"
    and b: "served (fst (selectResponse srv)) s s'"
    and c: "responses srv' = responses (snd (selectResponse srv))"
    and pf: "prefix (trace s
                       @ statusEvents [Target (Recorder (recorders s)), map_writer Client w]
                           (fst (selectResponse srv)))
                    (trace s')"
    and t: "(\<forall>tr n d. snd (clientWrite s tr n d) = None) \<longrightarrow>
                trace s' = trace s
                  @ responseEvents [Target (Recorder (recorders s)), map_writer Client w]
                      (fst (selectResponse srv))"
    by blast
  from b c t pf sel
  have "served (q ! min 0 (length q - 1)) s s'"
    and "responses srv' = drop (min (Suc 0) (length q - 1)) q"
    and "(\<forall>tr n d. snd (clientWrite s tr n d) = None) \<longrightarrow>
                trace s' = trace s
                  @ responseEvents [Target (Recorder (recorders s)), map_writer Client w]
                      (q ! min 0 (length q - 1))"
    and "prefix (trace s
                   @ statusEvents [Target (Recorder (recorders s)), map_writer Client w]
                       (q ! min 0 (length q - 1)))
                (trace s')"
    by simp_all
  with a reqs show ?case by simp
next
  case (Suc i)
  then obtain w r rest where reqs: "reqs = (w, r) # rest" by (cases reqs) auto
  with Suc.prems obtain x where x: "readRequest mime r = Some (Inr x)" by auto
  note sel = selectResponse_nonempty [OF Suc.prems(2) Suc.prems(1)]
  have v: "checkWriteHeaderCode (Status (fst (selectResponse srv)))"
    using sel(1) Suc.prems(1,3) by (cases q) auto
  from ServeHTTP_serves [OF x v, of w s]
  obtain srv' s' where a: "ServeHTTP mime w r (srv, s) = Some (srv', s')"
    and c: "responses srv' = responses (snd (selectResponse srv))"
    and cw: "clientWrite s' = clientWrite s"
    by blast
  let ?q' = "drop (min 1 (length q - 1)) q"
  have q': "responses srv' = ?q'"
    using c sel(2) by simp
  have ne: "?q' \<noteq> []" using Suc.prems(1) by (cases q) auto
  have v': "\<forall>p \<in> set ?q'. checkWriteHeaderCode (Status p)"
    using Suc.prems(3) by (meson in_set_dropD)
  have rest: "\<forall>wr \<in> set rest. \<exists>x. readRequest mime (snd wr) = Some (Inr x)"
    using Suc.prems(4) reqs by simp
  have i: "i < length rest" using Suc.prems(5) reqs by simp
  from Suc.IH [OF ne q' v' rest i, of s']
  obtain st st' where d: "serveAll mime (take i rest) (srv', s') = Some st"
    and e: "ServeHTTP mime (fst (rest ! i)) (snd (rest ! i)) st = Some st'"
    and f: "served (?q' ! min i (length ?q' - 1)) (snd st) (snd st')"
    and pf: "prefix (trace (snd st)
                       @ statusEvents
                           [Target (Recorder (recorders (snd st))),
                            map_writer Client (fst (rest ! i))]
                           (?q' ! min i (length ?q' - 1)))
                    (trace (snd st'))"
    and t: "(\<forall>tr n d. snd (clientWrite s' tr n d) = None) \<longrightarrow>
                trace (snd st') = trace (snd st)
                  @ responseEvents
                      [Target (Recorder (recorders (snd st))), map_writer Client (fst (rest ! i))]
                      (?q' ! min i (length ?q' - 1))"
    and g: "responses (fst st') = drop (min (Suc i) (length ?q' - 1)) ?q'"
    by blast
  have idx: "?q' ! min i (length ?q' - 1) = q ! min (Suc i) (length q - 1)"
    and drp: "drop (min (Suc i) (length ?q' - 1)) ?q' = drop (min (Suc (Suc i)) (length q - 1)) q"
  proof -
    show "?q' ! min i (length ?q' - 1) = q ! min (Suc i) (length q - 1)"
    proof (cases "length q = 1")
      case True
      then show ?thesis by simp
    next
      case False
      with Suc.prems(1) have n: "2 \<le> length q"
        by (cases q) (auto simp: Suc_le_eq)
      then have m: "1 + min i (length q - 2) = min (Suc i) (length q - 1)" by arith
      from n have q1: "?q' = drop 1 q" by (simp add: min_def)
      from n have l: "length (drop 1 q) - 1 = length q - 2" by simp
      have "drop 1 q ! min i (length q - 2) = q ! (1 + min i (length q - 2))"
        using n by (intro nth_drop) simp
      then show ?thesis unfolding q1 l m .
    qed
    show "drop (min (Suc i) (length ?q' - 1)) ?q' = drop (min (Suc (Suc i)) (length q - 1)) q"
    proof (cases "length q = 1")
      case True
      then show ?thesis by simp
    next
      case False
      with Suc.prems(1) have n: "2 \<le> length q"
        by (cases q) (auto simp: Suc_le_eq)
      then have m: "min (Suc i) (length q - 2) + 1 = min (Suc (Suc i)) (length q - 1)" by arith
      from n have q1: "?q' = drop 1 q" by (simp add: min_def)
      from n have l: "length (drop 1 q) - 1 = length q - 2" by simp
      have "drop (min (Suc i) (length q - 2)) (drop 1 q) = drop (min (Suc i) (length q - 2) + 1) q"
        by simp
      then show ?thesis unfolding q1 l m .
    qed
  qed
  have "serveAll mime (take (Suc i) reqs) (srv, s) = Some st" using a d reqs by simp
  moreover have "ServeHTTP mime (fst (reqs ! Suc i)) (snd (reqs ! Suc i)) st = Some st'"
    using e reqs by simp
  moreover have "(\<forall>tr n d. snd (clientWrite s tr n d) = None) \<longrightarrow>
                trace (snd st') = trace (snd st)
                  @ responseEvents
                      [Target (Recorder (recorders (snd st))),
                       map_writer Client (fst (reqs ! Suc i))]
                      (q ! min (Suc i) (length q - 1))"
    using t cw reqs unfolding idx by simp
  moreover have "prefix (trace (snd st)
                       @ statusEvents
                           [Target (Recorder (recorders (snd st))),
                            map_writer Client (fst (reqs ! Suc i))]
                           (q ! min (Suc i) (length q - 1)))
                    (trace (snd st'))"
    using pf reqs unfolding idx by simp
  moreover note f [unfolded idx] g [unfolded drp]
  ultimately show ?case by blast
qed

lemma responses_fold_Push:
  "responses (fold PushPredefinedServerResponse ps srv) = responses srv @ ps"
  by (induction ps arbitrary: srv) (simp_all add: PushPredefinedServerResponse_def)

lemma ParseForm_buffer:
  assumes "ParseForm mime r (Some t) = Some ((err, r2), b2)" and "source t = Some (Reader d e)"
  shows "\<exists>t2. b2 = Some t2 \<and>
     buffer t2 = buffer t @
       (if PostForm r = None \<and> (Method r = ''POST'' \<or> Method r = ''PUT'' \<or> Method r = ''PATCH'')
           \<and> fst (ParseMediaType mime
                 (if ContentType r = [] then ''application/octet-stream'' else ContentType r))
               = formContentType
        then take (maxFormSize + 1) d else [])"
proof -
  obtain buf where t: "t = TeeReader (Some (Reader d e)) buf"
    using assms(2) by (cases t) auto
  obtain ct merr where m: "ParseMediaType mime
      (if ContentType r = [] then ''application/octet-stream'' else ContentType r) = (ct, merr)"
    by (metis prod.exhaust)
  obtain nv e1 where q: "ParseQuery (RawQuery r) = (nv, e1)" by (cases "ParseQuery (RawQuery r)")
  obtain v2 e2 where q2: "ParseQuery (take (maxFormSize + 1) d) = (v2, e2)" by (metis prod.exhaust)
  obtain v3 e3 where q3: "ParseQuery d = (v3, e3)" by (metis prod.exhaust)
  show ?thesis
    using assms(1) t m q q2 q3
    by (auto simp: ParseForm_def parsePostForm_def Let_def split: if_splits option.splits)
qed


lemma readRequest_form:
  assumes "ContentType r = ''application/x-www-form-urlencoded''"
  shows "readRequest mime r =
     (case ParseForm mime r (Some (TeeReader (Request.Body r) [])) of
        None \<Rightarrow> None
      | Some ((Some err, r2), body2) \<Rightarrow>
          Some (Inl (Wrap ''test server failed to parse query string and form data: '' err,
                     r2, body2))
      | Some ((None, r2), body2) \<Rightarrow> Some (Inr (r2, body2)))"
  using assms unfolding readRequest_def Let_def drainBody_teeBody
  by (simp add: teeBody_def)

lemma readRequest_other:
  assumes "ContentType r \<noteq> ''application/x-www-form-urlencoded''"
    and "Request.Body r = Some (Reader d e)"
  shows "readRequest mime r =
     (case e of
        Some x \<Rightarrow> Some (Inl (Wrap ''test server failed to read the request body: '' x, r,
                             Some (TeeReader (Some (Reader [] e)) d)))
      | None \<Rightarrow>
         (case ParseForm mime r (Some (TeeReader (Some (Reader [] None)) d)) of
            None \<Rightarrow> None
          | Some ((Some err, r2), body2) \<Rightarrow>
              Some (Inl (Wrap ''test server failed to parse query string and form data: '' err,
                         r2, body2))
          | Some ((None, r2), body2) \<Rightarrow> Some (Inr (r2, body2))))"
  using assms unfolding readRequest_def Let_def drainBody_teeBody
  by (simp split: option.splits)

lemma parse_outcome:
  assumes "(case pr of
        None \<Rightarrow> None
      | Some ((Some err, r2), body2) \<Rightarrow> Some (Inl (Wrap m err, r2, body2))
      | Some ((None, r2), body2) \<Rightarrow> Some (Inr (r2, body2))) = Some res"
    and "res = Inl (werr, r1, b1) \<or> res = Inr (r1, b1)"
  shows "\<exists>err. pr = Some ((err, r1), b1)"
proof -
  from assms(1) obtain eo r2 b2 where pr: "pr = Some ((eo, r2), b2)"
    by (cases pr) auto
  with assms show ?thesis by (cases eo) auto
qed

lemma readRequest_buffer:
  assumes "Request.Body r = Some (Reader d e)"
    and "readRequest mime r = Some (Inl (werr, r1, b1)) \<or> readRequest mime r = Some (Inr (r1, b1))"
  shows "\<exists>t. b1 = Some t \<and> buffer t = captured r d"
proof -
  from assms(2) obtain res where res: "readRequest mime r = Some res"
    and alt: "res = Inl (werr, r1, b1) \<or> res = Inr (r1, b1)"
    by blast
  show ?thesis
  proof (cases "ContentType r = ''application/x-www-form-urlencoded''")
    case True
    let ?t = "TeeReader (Some (Reader d e)) []"
    from res have "\<exists>err. ParseForm mime r (Some (TeeReader (Request.Body r) [])) = Some ((err, r1), b1)"
      unfolding readRequest_form [OF True] using alt by (rule parse_outcome)
    then obtain err where p: "ParseForm mime r (Some ?t) = Some ((err, r1), b1)"
      using assms(1) by auto
    have "source ?t = Some (Reader d e)" by simp
    from ParseForm_buffer [OF p this] True show ?thesis
      by (simp add: captured_def ParseMediaType_def formContentType_def)
  next
    case False
    show ?thesis
    proof (cases e)
      case None
      let ?t = "TeeReader (Some (Reader [] None)) d"
      from res have "\<exists>err. ParseForm mime r (Some ?t) = Some ((err, r1), b1)"
        unfolding readRequest_other [OF False assms(1)] None option.case
        using alt by (rule parse_outcome)
      then obtain err where p: "ParseForm mime r (Some ?t) = Some ((err, r1), b1)" by blast
      have "source ?t = Some (Reader [] None)" by simp
      from ParseForm_buffer [OF p this] False show ?thesis
        by (simp add: captured_def cong: if_cong)
    next
      case (Some x)
      from res alt have "b1 = Some (TeeReader (Some (Reader [] e)) d)"
        unfolding readRequest_other [OF False assms(1)] Some option.case by auto
      with False show ?thesis by (simp add: captured_def)
    qed
  qed
qed

lemma ServeHTTP_last_record:
  assumes "ServeHTTP mime w r (srv, s) = Some (srv', s')"
  shows "\<exists>werr r1 b1 err.
           (readRequest mime r = Some (Inl (werr, r1, b1)) \<or> readRequest mime r = Some (Inr (r1, b1)))
         \<and> last (records srv') = (serverRecord r1 (recorders s) b1)\<lparr>ServerError := err\<rparr>"
proof (cases "readRequest mime r")
  case None
  then show ?thesis using assms by (simp add: ServeHTTP_None)
next
  case (Some x)
  show ?thesis
  proof (cases x)
    case (Inl a)
    obtain werr r1 b1 where a: "a = (werr, r1, b1)" by (cases a)
    from Some Inl a ServeHTTP_Inl [of mime r werr r1 b1 w srv s] assms
    have "last (records srv') = (serverRecord r1 (recorders s) b1)\<lparr>ServerError := Some werr\<rparr>"
      by auto
    with Some Inl a show ?thesis by blast
  next
    case (Inr b)
    obtain r1 b1 where b: "b = (r1, b1)" by (cases b)
    obtain p srv1 where sel: "selectResponse srv = (p, srv1)" by (cases "selectResponse srv")
    have n: "serverRecord r1 (recorders s) b1
        = (serverRecord r1 (recorders s) b1)\<lparr>ServerError := None\<rparr>"
      by (simp add: serverRecord_def)
    from Some Inr b ServeHTTP_Inr [of mime r r1 b1 srv p srv1 w s] sel assms
    have "last (records srv') = serverRecord r1 (recorders s) b1
          \<or> (\<exists>e. last (records srv')
                = (serverRecord r1 (recorders s) b1)\<lparr>ServerError := Some (writeFailure e)\<rparr>)"
      by auto
    with n have "\<exists>err. last (records srv') = (serverRecord r1 (recorders s) b1)\<lparr>ServerError := err\<rparr>"
      by metis
    with Some Inr b show ?thesis by blast
  qed
qed

lemma ServeHTTP_empty_queue:
  assumes "responses srv = []" and "ServeHTTP mime w r (srv, s) = Some (srv', s')"
  shows "responses srv' = []"
proof -
  have sel: "selectResponse srv = (notFound, srv)"
    using assms(1) by (simp add: selectResponse_cases)
  show ?thesis
  proof (cases "readRequest mime r")
    case None
    then show ?thesis using assms(2) by (simp add: ServeHTTP_None)
  next
    case (Some x)
    show ?thesis
    proof (cases x)
      case (Inl e)
      obtain werr r1 b1 where "e = (werr, r1, b1)" by (cases e)
      with Some Inl ServeHTTP_Inl [of mime r werr r1 b1 w srv s] assms show ?thesis by auto
    next
      case (Inr b)
      obtain r1 b1 where "b = (r1, b1)" by (cases b)
      with Some Inr ServeHTTP_Inr [of mime r r1 b1 srv notFound srv w s] sel assms
      show ?thesis by auto
    qed
  qed
qed

lemma wroteHeader_append:
  "wroteHeader a (tr @ tr') = (wroteHeader a tr \<or> wroteHeader a tr')"
  by (induction a tr rule: wroteHeader.induct) auto

lemma wroteHeader_headerEvents: "\<not> wroteHeader a (headerEvents mw k v)"
  by (induction mw) (auto simp: headerEvents_def wroteHeader_append split: option.splits)

lemma wroteHeader_concat:
  "(\<And>x. x \<in> set xs \<Longrightarrow> \<not> wroteHeader a x) \<Longrightarrow> \<not> wroteHeader a (concat xs)"
  by (induction xs) (auto simp: wroteHeader_append)

lemma ServeHTTP_panics:
  assumes "readRequest mime r = Some (Inr x)"
    and "\<not> checkWriteHeaderCode (Status (fst (selectResponse srv)))"
    and "\<not> wroteHeader (Recorder (recorders s)) (trace s)"
  shows "ServeHTTP mime w r (srv, s) = None"
proof -
  obtain r1 b1 where x: "x = (r1, b1)" by (cases x)
  obtain p srv1 where sel: "selectResponse srv = (p, srv1)" by (cases "selectResponse srv")
  let ?k = "recorders s"
  let ?mw = "[Target (Recorder ?k), map_writer Client w]"
  let ?hs = "concat (map (\<lambda>hv. concat (map (headerEvents ?mw (fst hv)) (snd hv))) (Headers p))"
  let ?s1 = "addHeaders (Headers p) ?mw (s\<lparr>recorders := Suc ?k\<rparr>)"
  have "\<not> wroteHeader (Recorder ?k) (concat (map (headerEvents ?mw h) vs))" for h vs
    by (rule wroteHeader_concat) (auto simp: wroteHeader_headerEvents)
  then have "\<not> wroteHeader (Recorder ?k) ?hs"
    by (intro wroteHeader_concat) auto
  then have "\<not> wroteHeader (Recorder ?k) (trace ?s1)"
    using assms(3) by (simp add: addHeaders_eq wroteHeader_append)
  then have "WriteHeader (Status p) (MultiTarget ?mw) ?s1 = None"
    using assms(2) sel by simp
  then show ?thesis
    using assms(1) x
    unfolding ServeHTTP_Inr_eq [of mime r r1 b1 w srv s, OF assms(1) [unfolded x]]
      respond_def prod.case sel Let_def
    by (simp del: WriteHeader.simps)
qed





subsection \<open>Runs on the example inputs\<close>

lemmas run_defs =
  ServeHTTP_def readRequest_def NewRecorder_def newMultiTargetHTTPResponseWriter_def
  teeBody_def drainBody_def copiesBody_def ParseForm_def parsePostForm_def ParseMediaType_def
  formContentType_def maxFormSize_def ParseQuery_def parsePiece_def respond_def
  selectResponse_def serverRecord_def handleInternalError_def Header_Add_def Header_Set_def
  emit_def Let_def NewHTTPTestServer_def PushPredefinedServerResponse_def
  quiet_def broken_def bareMime_def EscapeError_def ishex_def unhex_def
  checkWriteHeaderCode_def Quote_def quoteByte_def lowerhex_def

lemma readRequest_failingRequest:
  "readRequest bareMime failingRequest
     = Some (Inl (Wrap ''test server failed to read the request body: '' (Err ''PWNED''),
                  failingRequest,
                  Some (TeeReader (Some (Reader [] (Some (Err ''PWNED'')))) [])))"
  by (simp add: run_defs failingRequest_def)

lemma readRequest_getRequest:
  "readRequest bareMime getRequest
     = Some (Inr (getRequest\<lparr>PostForm := Some [], Form := Some []\<rparr>,
                  Some (TeeReader (Some (Reader [] None)) [])))"
  by (simp add: run_defs getRequest_def)

lemma readRequest_jsonRequest:
  "readRequest bareMime jsonRequest
     = Some (Inr (jsonRequest\<lparr>PostForm := Some [], Form := Some []\<rparr>,
                  Some (TeeReader (Some (Reader [] None)) ''{}'')))"
  by (simp add: run_defs jsonRequest_def)

subsection \<open>The claims\<close>

text \<open>
  C1, as amended: after \<open>N \<ge> 2\<close> responses are pushed on an empty queue, each with a
  status code from 100 to 999, let any number of requests follow whose bodies are read and
  whose forms are parsed without failure. Then request \<open>i\<close> (counting from 0) is handled
  and served the response at index \<open>min i (N - 1)\<close>: the first \<open>N - 1\<close> requests get the
  responses \<open>1\<close> to \<open>N - 1\<close> in the order of the pushes, every later request gets response
  \<open>N\<close>. The recorder of the exchange receives the headers, the status and the body of that
  response before anything else; the calls of the exchange begin with the headers and the
  status of that response on the recorder and on the writer of the caller; and when no
  write on a sink of the caller fails, they are exactly the calls of that response, body
  included, on the recorder and on the writer of the caller. After the request the queue
  holds the responses from index
  \<open>min (i + 1) (N - 1)\<close> on: the responses are taken from the front and the last one is
  never removed.
\<close>

theorem responses_served_in_push_order:
  assumes "responses srv = []" and "2 \<le> length ps"
    and "\<forall>p \<in> set ps. checkWriteHeaderCode (Status p)"
    and "\<forall>wr \<in> set reqs. \<exists>x. readRequest mime (snd wr) = Some (Inr x)"
    and "i < length reqs"
  shows "\<exists>st st'. serveAll mime (take i reqs) (fold PushPredefinedServerResponse ps srv, s) = Some st
           \<and> ServeHTTP mime (fst (reqs ! i)) (snd (reqs ! i)) st = Some st'
           \<and> served (ps ! min i (length ps - 1)) (snd st) (snd st')
           \<and> prefix (trace (snd st)
                       @ statusEvents
                           [Target (Recorder (recorders (snd st))),
                            map_writer Client (fst (reqs ! i))]
                           (ps ! min i (length ps - 1)))
                    (trace (snd st'))
           \<and> ((\<forall>tr n d. snd (clientWrite s tr n d) = None) \<longrightarrow>
                trace (snd st') = trace (snd st)
                  @ responseEvents
                      [Target (Recorder (recorders (snd st))), map_writer Client (fst (reqs ! i))]
                      (ps ! min i (length ps - 1)))
           \<and> responses (fst st') = drop (min (Suc i) (length ps - 1)) ps"
proof -
  have "ps \<noteq> []" using assms(2) by auto
  moreover have "responses (fold PushPredefinedServerResponse ps srv) = ps"
    using assms(1) by (simp add: responses_fold_Push)
  ultimately show ?thesis using assms(3,4,5) by (rule serve_queue)
qed

text \<open>
  C1 as stated fails on requests that do not reach the queue. With the responses A and B
  pushed, a first request whose body cannot be read is answered with status 500 and takes
  nothing from the queue; the second request is then served A, not B, and the third B. It
  also fails on a response that cannot be written: with the zero value of
  \<^verbatim>\<open>PredefinedServerResponse\<close> pushed first, whose status is 0, the handler panics on the
  first request and serves it nothing.
\<close>

theorem failed_request_takes_no_response:
  "ServeHTTP bareMime (Target 0) failingRequest
     (fold PushPredefinedServerResponse [responseA, responseB] NewHTTPTestServer, quiet)
   = Some (\<lparr>responses = [responseA, responseB],
            records = [(serverRecord failingRequest 0
                          (Some (TeeReader (Some (Reader [] (Some (Err ''PWNED'')))) [])))
                       \<lparr>ServerError := Some (Wrap ''test server failed to read the request body: ''
                                               (Err ''PWNED''))\<rparr>]\<rparr>,
           quiet\<lparr>trace := [(Recorder 0, HeaderSet ''Content-Type'' ''text/plain''),
                           (Recorder 0, WriteHeaderCall 500), (Client 0, WriteHeaderCall 500),
                           (Recorder 0, WriteCall ''test server failed to read the request body: PWNED''),
                           (Client 0, WriteCall ''test server failed to read the request body: PWNED'')],
                 recorders := 1\<rparr>)
   \<and> \<not> served responseA quiet
         (quiet\<lparr>trace := [(Recorder 0, HeaderSet ''Content-Type'' ''text/plain''),
                           (Recorder 0, WriteHeaderCall 500), (Client 0, WriteHeaderCall 500),
                           (Recorder 0, WriteCall ''test server failed to read the request body: PWNED''),
                           (Client 0, WriteCall ''test server failed to read the request body: PWNED'')],
                 recorders := 1\<rparr>)
   \<and> map_option (trace \<circ> snd)
       (serveAll bareMime
          [(Target 0, failingRequest), (Target 0, getRequest), (Target 0, getRequest)]
          (fold PushPredefinedServerResponse [responseA, responseB] NewHTTPTestServer, quiet))
     = Some [(Recorder 0, HeaderSet ''Content-Type'' ''text/plain''),
             (Recorder 0, WriteHeaderCall 500), (Client 0, WriteHeaderCall 500),
             (Recorder 0, WriteCall ''test server failed to read the request body: PWNED''),
             (Client 0, WriteCall ''test server failed to read the request body: PWNED''),
             (Recorder 1, HeaderAdd ''Content-Type'' ''application/json''),
             (Client 0, HeaderAdd ''Content-Type'' ''application/json''),
             (Recorder 1, WriteHeaderCall 200), (Client 0, WriteHeaderCall 200),
             (Recorder 1, WriteCall ''{}''), (Client 0, WriteCall ''{}''),
             (Recorder 2, WriteHeaderCall 204), (Client 0, WriteHeaderCall 204)]
   \<and> ServeHTTP bareMime (Target 0) getRequest
       (fold PushPredefinedServerResponse [zeroResponse, responseB] NewHTTPTestServer, quiet)
     = None"
  by (simp add: run_defs failingRequest_def getRequest_def responseA_def responseB_def
        zeroResponse_def served_def responseCalls_def newCalls_def)

theorem responses_served_in_push_order_witness:
  "\<exists>st st'.
     serveAll bareMime [(Target 0, getRequest), (Target 0, jsonRequest)]
       (fold PushPredefinedServerResponse [responseA, responseB] NewHTTPTestServer, quiet) = Some st
     \<and> ServeHTTP bareMime (Target 0) getRequest st = Some st'
     \<and> served responseB (snd st) (snd st')
     \<and> prefix (trace (snd st)
                 @ [(Recorder (recorders (snd st)), WriteHeaderCall 204),
                    (Client 0, WriteHeaderCall 204)])
              (trace (snd st'))
     \<and> trace (snd st') = trace (snd st)
         @ [(Recorder (recorders (snd st)), WriteHeaderCall 204), (Client 0, WriteHeaderCall 204)]
     \<and> responses (fst st') = [responseB]"
  using responses_served_in_push_order [where srv = NewHTTPTestServer
      and ps = "[responseA, responseB]"
      and reqs = "[(Target 0, getRequest), (Target 0, jsonRequest), (Target 0, getRequest)]"
      and mime = bareMime and i = 2 and s = quiet]
  by (simp add: NewHTTPTestServer_def readRequest_getRequest readRequest_jsonRequest
        checkWriteHeaderCode_def responseEvents_def statusEvents_def headerEvents_def quiet_def
        responseA_def responseB_def)

text \<open>
  C2, as amended: the handler appends exactly one record for every request on which it
  returns, on every path: when it serves a response, and when reading the body, parsing the
  form or writing the response fails; the records it found stay as they are. It returns on
  every request whose body is not \<^verbatim>\<open>nil\<close> when the status of the response to serve is
  one of 100 to 999, and on every request whose body read or form parse fails. When a
  request reaches the queue and the response to serve has another status, the handler
  panics at line 150, on the recorder it has just created, on which no call was made yet:
  it does not reach the append of line 166.
\<close>

theorem ServeHTTP_appends_one_record:
  "(Request.Body r \<noteq> None \<and> checkWriteHeaderCode (Status (fst (selectResponse srv)))
      \<longrightarrow> ServeHTTP mime w r (srv, s) \<noteq> None)
   \<and> (\<forall>werr r1 b1. readRequest mime r = Some (Inl (werr, r1, b1))
         \<longrightarrow> ServeHTTP mime w r (srv, s) \<noteq> None)
   \<and> (\<forall>srv' s'. ServeHTTP mime w r (srv, s) = Some (srv', s') \<longrightarrow>
         length (records srv') = length (records srv) + 1
         \<and> take (length (records srv)) (records srv') = records srv)
   \<and> (\<forall>x. readRequest mime r = Some (Inr x) \<longrightarrow>
         \<not> checkWriteHeaderCode (Status (fst (selectResponse srv))) \<longrightarrow>
         \<not> wroteHeader (Recorder (recorders s)) (trace s) \<longrightarrow>
         ServeHTTP mime w r (srv, s) = None)"
proof (intro conjI impI allI)
  assume "Request.Body r \<noteq> None \<and> checkWriteHeaderCode (Status (fst (selectResponse srv)))"
  then show "ServeHTTP mime w r (srv, s) \<noteq> None"
    using ServeHTTP_total [of r srv mime w s] by auto
next
  fix werr r1 b1
  assume "readRequest mime r = Some (Inl (werr, r1, b1))"
  then show "ServeHTTP mime w r (srv, s) \<noteq> None"
    using ServeHTTP_Inl [of mime r werr r1 b1 w srv s] by auto
next
  fix srv' s'
  assume a: "ServeHTTP mime w r (srv, s) = Some (srv', s')"
  then obtain rec where "records srv' = records srv @ [rec]" using ServeHTTP_records by blast
  then show "length (records srv') = length (records srv) + 1" 
    and "take (length (records srv)) (records srv') = records srv" by simp_all
next
  fix x
  assume "readRequest mime r = Some (Inr x)"
    "\<not> checkWriteHeaderCode (Status (fst (selectResponse srv)))"
    "\<not> wroteHeader (Recorder (recorders s)) (trace s)"
  then show "ServeHTTP mime w r (srv, s) = None" by (rule ServeHTTP_panics)
qed

text \<open>
  C2 as stated fails: with the zero value of \<^verbatim>\<open>PredefinedServerResponse\<close> pushed, whose
  status is 0, a request whose body is read and whose form is parsed without failure makes
  the handler panic, before any record is appended; the writer of the caller plays no part
  in it.
\<close>

theorem unwritable_response_leaves_no_record:
  "readRequest bareMime getRequest
     = Some (Inr (getRequest\<lparr>PostForm := Some [], Form := Some []\<rparr>,
                  Some (TeeReader (Some (Reader [] None)) [])))
   \<and> ServeHTTP bareMime (Target 0) getRequest
       (PushPredefinedServerResponse zeroResponse NewHTTPTestServer, quiet) = None
   \<and> ServeHTTP bareMime (Target 0) getRequest
       (PushPredefinedServerResponse zeroResponse NewHTTPTestServer, broken) = None"
  by (simp add: run_defs getRequest_def zeroResponse_def)

theorem ServeHTTP_appends_one_record_witness:
  "map_option (\<lambda>st. length (records (fst st)))
     (ServeHTTP bareMime (Target 0) getRequest (NewHTTPTestServer, quiet)) = Some 1
   \<and> map_option (\<lambda>st. length (records (fst st)))
     (ServeHTTP bareMime (Target 0) failingRequest (NewHTTPTestServer, quiet)) = Some 1
   \<and> map_option (\<lambda>st. length (records (fst st)))
     (ServeHTTP bareMime (Target 0) badQueryRequest (NewHTTPTestServer, quiet)) = Some 1
   \<and> map_option (\<lambda>st. length (records (fst st)))
     (ServeHTTP bareMime (Target 0) getRequest
        (PushPredefinedServerResponse responseA NewHTTPTestServer, broken)) = Some 1
   \<and> map_option (\<lambda>st. length (records (fst st)))
     (ServeHTTP bareMime (Target 0) failingRequest
        (PushPredefinedServerResponse zeroResponse NewHTTPTestServer, quiet)) = Some 1
   \<and> ServeHTTP bareMime (Target 0) jsonRequest
        (PushPredefinedServerResponse zeroResponse NewHTTPTestServer, quiet) = None"
proof -
  have *: "Request.Body r \<noteq> None \<Longrightarrow> checkWriteHeaderCode (Status (fst (selectResponse srv)))
      \<Longrightarrow> records srv = [] \<Longrightarrow>
      map_option (\<lambda>st. length (records (fst st))) (ServeHTTP bareMime (Target 0) r (srv, s)) = Some 1"
    for r srv s
    using ServeHTTP_appends_one_record [of r srv bareMime "Target 0" s] by fastforce
  have **: "readRequest bareMime r = Some (Inl (werr, r1, b1)) \<Longrightarrow> records srv = [] \<Longrightarrow>
      map_option (\<lambda>st. length (records (fst st))) (ServeHTTP bareMime (Target 0) r (srv, s)) = Some 1"
    for r srv s werr r1 b1
    using ServeHTTP_appends_one_record [of r srv bareMime "Target 0" s] by fastforce
  have ***: "readRequest bareMime r = Some (Inr x) \<Longrightarrow>
      \<not> checkWriteHeaderCode (Status (fst (selectResponse srv))) \<Longrightarrow>
      \<not> wroteHeader (Recorder (recorders s)) (trace s) \<Longrightarrow>
      ServeHTTP bareMime (Target 0) r (srv, s) = None"
    for r srv s x
    using ServeHTTP_appends_one_record [of r srv bareMime "Target 0" s] by blast
  have "map_option (\<lambda>st. length (records (fst st)))
     (ServeHTTP bareMime (Target 0) failingRequest
        (PushPredefinedServerResponse zeroResponse NewHTTPTestServer, quiet)) = Some 1"
    by (rule ** [OF readRequest_failingRequest])
       (simp add: NewHTTPTestServer_def PushPredefinedServerResponse_def)
  moreover have "ServeHTTP bareMime (Target 0) jsonRequest
        (PushPredefinedServerResponse zeroResponse NewHTTPTestServer, quiet) = None"
    by (rule *** [OF readRequest_jsonRequest])
       (simp_all add: NewHTTPTestServer_def PushPredefinedServerResponse_def selectResponse_def
          zeroResponse_def checkWriteHeaderCode_def quiet_def)
  moreover have "map_option (\<lambda>st. length (records (fst st)))
     (ServeHTTP bareMime (Target 0) getRequest (NewHTTPTestServer, quiet)) = Some 1
   \<and> map_option (\<lambda>st. length (records (fst st)))
     (ServeHTTP bareMime (Target 0) failingRequest (NewHTTPTestServer, quiet)) = Some 1
   \<and> map_option (\<lambda>st. length (records (fst st)))
     (ServeHTTP bareMime (Target 0) badQueryRequest (NewHTTPTestServer, quiet)) = Some 1
   \<and> map_option (\<lambda>st. length (records (fst st)))
     (ServeHTTP bareMime (Target 0) getRequest
        (PushPredefinedServerResponse responseA NewHTTPTestServer, broken)) = Some 1"
    by (intro conjI *)
       (simp_all add: getRequest_def failingRequest_def badQueryRequest_def
          NewHTTPTestServer_def PushPredefinedServerResponse_def selectResponse_def
          responseA_def checkWriteHeaderCode_def)
  ultimately show ?thesis by simp
qed



text \<open>
  C4, as amended: on an empty queue every request the handler handles leaves the queue empty
  and appends exactly one record. A request whose body is read and whose form is parsed
  without failure is handled and served the response with status 404, no header and no body:
  the recorder of the exchange and every sink of the caller receive the status 404 and
  nothing else.
\<close>

theorem empty_queue_serves_404:
  assumes "responses srv = []"
  shows "(\<forall>srv' s'. ServeHTTP mime w r (srv, s) = Some (srv', s') \<longrightarrow>
            responses srv' = [] \<and> length (records srv') = length (records srv) + 1)
       \<and> (\<forall>x. readRequest mime r = Some (Inr x) \<longrightarrow>
            (\<exists>srv' s'. ServeHTTP mime w r (srv, s) = Some (srv', s')
               \<and> served notFound s s'
               \<and> trace s' = trace s @ map (\<lambda>a. (a, WriteHeaderCall 404))
                                         (Recorder (recorders s) # map Client (leaves w))))"
proof (intro conjI allI impI)
  fix srv' s'
  assume a: "ServeHTTP mime w r (srv, s) = Some (srv', s')"
  then obtain rec where "records srv' = records srv @ [rec]" using ServeHTTP_records by blast
  then show "length (records srv') = length (records srv) + 1" by simp
  show "responses srv' = []" using assms a by (rule ServeHTTP_empty_queue)
next
  fix x
  assume x: "readRequest mime r = Some (Inr x)"
  obtain r1 b1 where x1: "x = (r1, b1)" by (cases x)
  have sel: "selectResponse srv = (notFound, srv)"
    using assms by (simp add: selectResponse_cases)
  let ?k = "recorders s"
  let ?mw = "[Target (Recorder ?k), map_writer Client w]"
  let ?s0 = "s\<lparr>recorders := Suc ?k\<rparr>"
  let ?s' = "?s0\<lparr>trace := trace ?s0
               @ map (\<lambda>a. (a, WriteHeaderCall 404)) (leaves (MultiTarget ?mw))\<rparr>"
  have wh: "WriteHeader 404 (MultiTarget ?mw) ?s0 = Some ?s'"
    by (rule WriteHeader_valid(1)) simp
  have rd: "readRequest mime r = Some (Inr (r1, b1))" using x x1 by simp
  have run: "ServeHTTP mime w r (srv, s)
      = Some (srv\<lparr>records := records srv @ [serverRecord r1 ?k b1]\<rparr>, ?s')"
    unfolding ServeHTTP_Inr_eq [OF rd] respond_def prod.case sel Let_def
    by (simp add: notFound_def wh [unfolded notFound_def] del: WriteHeader.simps)
  have tr: "trace ?s' = trace s @ map (\<lambda>a. (a, WriteHeaderCall 404))
                                   (Recorder ?k # map Client (leaves w))"
    by (simp add: leaves_map_writer)
  have v: "checkWriteHeaderCode (Status (fst (selectResponse srv)))"
    using sel by (simp add: notFound_def)
  from ServeHTTP_serves [OF x v, of w s] run sel have "served notFound s ?s'" by simp
  with run tr
  show "\<exists>srv' s'. ServeHTTP mime w r (srv, s) = Some (srv', s')
               \<and> served notFound s s'
               \<and> trace s' = trace s @ map (\<lambda>a. (a, WriteHeaderCall 404))
                                         (Recorder (recorders s) # map Client (leaves w))"
    by blast
qed

text \<open>
  C4 as stated fails: on an empty queue, a request whose body cannot be read is answered
  with status 500 and the text of the failure, not with 404.
\<close>

theorem empty_queue_failed_request_gets_500:
  "responses NewHTTPTestServer = []
   \<and> ServeHTTP bareMime (Target 0) failingRequest (NewHTTPTestServer, quiet)
     = Some (\<lparr>responses = [],
              records = [(serverRecord failingRequest 0
                            (Some (TeeReader (Some (Reader [] (Some (Err ''PWNED'')))) [])))
                         \<lparr>ServerError := Some (Wrap ''test server failed to read the request body: ''
                                                 (Err ''PWNED''))\<rparr>]\<rparr>,
             quiet\<lparr>trace := [(Recorder 0, HeaderSet ''Content-Type'' ''text/plain''),
                             (Recorder 0, WriteHeaderCall 500), (Client 0, WriteHeaderCall 500),
                             (Recorder 0, WriteCall ''test server failed to read the request body: PWNED''),
                             (Client 0, WriteCall ''test server failed to read the request body: PWNED'')],
                   recorders := 1\<rparr>)
   \<and> \<not> served notFound quiet
         (quiet\<lparr>trace := [(Recorder 0, HeaderSet ''Content-Type'' ''text/plain''),
                           (Recorder 0, WriteHeaderCall 500), (Client 0, WriteHeaderCall 500),
                           (Recorder 0, WriteCall ''test server failed to read the request body: PWNED''),
                           (Client 0, WriteCall ''test server failed to read the request body: PWNED'')],
                 recorders := 1\<rparr>)"
  by (simp add: run_defs failingRequest_def served_def responseCalls_def newCalls_def notFound_def)

theorem empty_queue_serves_404_witness:
  "\<exists>srv' s'. ServeHTTP bareMime (MultiTarget [Target 0, Target 1]) getRequest
                (NewHTTPTestServer, quiet) = Some (srv', s')
     \<and> responses srv' = [] \<and> length (records srv') = 1
     \<and> trace s' = [(Recorder 0, WriteHeaderCall 404), (Client 0, WriteHeaderCall 404),
                   (Client 1, WriteHeaderCall 404)]"
proof -
  have e: "responses NewHTTPTestServer = []" by (simp add: NewHTTPTestServer_def)
  note t = empty_queue_serves_404 [OF e, of bareMime "MultiTarget [Target 0, Target 1]"
      getRequest quiet]
  from t readRequest_getRequest obtain srv' s' where
    a: "ServeHTTP bareMime (MultiTarget [Target 0, Target 1]) getRequest
          (NewHTTPTestServer, quiet) = Some (srv', s')"
    and b: "trace s' = trace quiet @ map (\<lambda>a. (a, WriteHeaderCall 404))
              (Recorder (recorders quiet) # map Client (leaves (MultiTarget [Target 0, Target (1::nat)])))"
    by blast
  from t a have "responses srv' = [] \<and> length (records srv') = length (records NewHTTPTestServer) + 1"
    by blast
  with a b show ?thesis by (simp add: quiet_def NewHTTPTestServer_def)
qed

text \<open>
  C5: \<^verbatim>\<open>Write\<close> of the multi target writer writes to the targets in order. Without a
  target it returns 0 and no failure. When the targets \<open>pre\<close> all took the data and the next
  target \<open>t\<close> fails, the result is the result of \<open>t\<close> and the sinks are as \<open>t\<close> left them: no
  target after \<open>t\<close> is written to. When \<open>t\<close> is the last target and succeeds, the result is
  the result of \<open>t\<close>.
\<close>

theorem Write_first_failure_wins:
  "Write data (MultiTarget []) s = ((0, None), s)
   \<and> (Write data (MultiTarget pre) s = ((r0, None), s0) \<longrightarrow>
        Write data t s0 = ((r, Some e), s1) \<longrightarrow>
        Write data (MultiTarget (pre @ t # post)) s = ((r, Some e), s1))
   \<and> (Write data (MultiTarget pre) s = ((r0, None), s0) \<longrightarrow>
        Write data t s0 = ((r, None), s1) \<longrightarrow>
        Write data (MultiTarget (pre @ [t])) s = ((r, None), s1))"
  by (simp add: Write_targets_append)

theorem Write_first_failure_wins_witness:
  "Write ''hi'' (MultiTarget [Target (Client 0)]) quiet
     = ((2, None), emit (Client 0) (WriteCall ''hi'') quiet)
   \<and> Write ''hi'' (Target (Recorder 0)) (emit (Client 0) (WriteCall ''hi'') broken)
     = ((2, None), emit (Recorder 0) (WriteCall ''hi'') (emit (Client 0) (WriteCall ''hi'') broken))
   \<and> Write ''hi'' (MultiTarget ([Target (Recorder 0)] @ Target (Client 1) # [Target (Client 2)])) broken
     = ((0, Some (Err ''PWNED'')), emit (Client 1) (WriteCall ''hi'') (emit (Recorder 0) (WriteCall ''hi'') broken))
   \<and> Write ''hi'' (MultiTarget ([Target (Client 0)] @ [Target (Recorder 0)])) quiet
     = ((2, None), emit (Recorder 0) (WriteCall ''hi'') (emit (Client 0) (WriteCall ''hi'') quiet))"
proof -
  have a: "Write ''hi'' (MultiTarget [Target (Client 0)]) quiet
      = ((2, None), emit (Client 0) (WriteCall ''hi'') quiet)"
    by (simp add: quiet_def emit_def)
  have b: "Write ''hi'' (Target (Recorder 0)) (emit (Client 0) (WriteCall ''hi'') quiet)
      = ((2, None), emit (Recorder 0) (WriteCall ''hi'') (emit (Client 0) (WriteCall ''hi'') quiet))"
    by simp
  have c: "Write ''hi'' (MultiTarget [Target (Recorder 0)]) broken
      = ((2, None), emit (Recorder 0) (WriteCall ''hi'') broken)"
    by simp
  have d: "Write ''hi'' (Target (Client 1)) (emit (Recorder 0) (WriteCall ''hi'') broken)
      = ((0, Some (Err ''PWNED'')),
         emit (Client 1) (WriteCall ''hi'') (emit (Recorder 0) (WriteCall ''hi'') broken))"
    by (simp add: broken_def emit_def)
  from Write_first_failure_wins [of "''hi''" broken "[Target (Recorder 0)]" 2
      "emit (Recorder 0) (WriteCall ''hi'') broken" "Target (Client 1)" 0 "Err ''PWNED''"
      "emit (Client 1) (WriteCall ''hi'') (emit (Recorder 0) (WriteCall ''hi'') broken)"
      "[Target (Client 2)]"] c d
  have e: "Write ''hi'' (MultiTarget ([Target (Recorder 0)] @ Target (Client 1) # [Target (Client 2)])) broken
     = ((0, Some (Err ''PWNED'')), emit (Client 1) (WriteCall ''hi'') (emit (Recorder 0) (WriteCall ''hi'') broken))"
    by blast
  from Write_first_failure_wins [of "''hi''" quiet "[Target (Client 0)]" 2
      "emit (Client 0) (WriteCall ''hi'') quiet" "Target (Recorder 0)" 2 _
      "emit (Recorder 0) (WriteCall ''hi'') (emit (Client 0) (WriteCall ''hi'') quiet)"] a b
  have f: "Write ''hi'' (MultiTarget ([Target (Client 0)] @ [Target (Recorder 0)])) quiet
     = ((2, None), emit (Recorder 0) (WriteCall ''hi'') (emit (Client 0) (WriteCall ''hi'') quiet))"
    by blast
  have b': "Write ''hi'' (Target (Recorder 0)) (emit (Client 0) (WriteCall ''hi'') broken)
     = ((2, None), emit (Recorder 0) (WriteCall ''hi'') (emit (Client 0) (WriteCall ''hi'') broken))"
    by simp
  from a b' e f show ?thesis by blast
qed

text \<open>
  C6, as amended: when the content type is not the form type, the buffer of the record holds
  the bytes of the body, as they were sent. When it is the form type, the buffer holds the
  bytes that \<^verbatim>\<open>ParseForm\<close> read from the body, unchanged: the body, up to its first
  10485761 bytes, for a \<^verbatim>\<open>POST\<close>, \<^verbatim>\<open>PUT\<close> or \<^verbatim>\<open>PATCH\<close> request whose form is not
  parsed yet, and nothing for any other request. It is not an encoding of the parsed values.
\<close>

theorem RequestBody_is_what_was_read:
  assumes "ServeHTTP mime w r (srv, s) = Some (srv', s')"
    and "Request.Body r = Some (Reader d e)"
  shows "RequestBody (last (records srv')) =
     (if ContentType r \<noteq> ''application/x-www-form-urlencoded'' then d
      else if PostForm r = None \<and> (Method r = ''POST'' \<or> Method r = ''PUT'' \<or> Method r = ''PATCH'')
      then take (maxFormSize + 1) d
      else [])"
proof -
  from ServeHTTP_last_record [OF assms(1)] obtain werr r1 b1 err where
    a: "readRequest mime r = Some (Inl (werr, r1, b1)) \<or> readRequest mime r = Some (Inr (r1, b1))"
    and b: "last (records srv') = (serverRecord r1 (recorders s) b1)\<lparr>ServerError := err\<rparr>"
    by blast
  from readRequest_buffer [OF assms(2) a] obtain t where "b1 = Some t" "buffer t = captured r d"
    by blast
  with b show ?thesis by (simp add: serverRecord_def captured_def)
qed

text \<open>
  C6 as stated fails: the form body \<^verbatim>\<open>b=2&a=1\<close> is recorded as it was sent, while
  the parsed values are encoded as \<^verbatim>\<open>a=1&b=2\<close>.
\<close>

theorem RequestBody_is_not_reencoded:
  "ServeHTTP bareMime (Target 0) formRequest (NewHTTPTestServer, quiet)
     = Some (\<lparr>responses = [],
              records = [\<lparr>Request = formRequest
                             \<lparr>Request.Body := Some (Reader [] None),
                              PostForm := Some [(''b'', [''2'']), (''a'', [''1''])],
                              Form := Some [(''b'', [''2'']), (''a'', [''1''])]\<rparr>,
                          Response = 0, RequestBody = ''b=2&a=1'', ServerError = None\<rparr>]\<rparr>,
             quiet\<lparr>trace := [(Recorder 0, WriteHeaderCall 404), (Client 0, WriteHeaderCall 404)],
                   recorders := 1\<rparr>)
   \<and> Encode [(''b'', [''2'']), (''a'', [''1''])] = ''a=1&b=2''
   \<and> ''b=2&a=1'' \<noteq> ''a=1&b=2''"
  by (simp add: run_defs formRequest_def Encode_def shouldEscape_def)

theorem RequestBody_is_what_was_read_witness:
  "map_option (\<lambda>st. RequestBody (last (records (fst st))))
     (ServeHTTP bareMime (Target 0) formRequest (NewHTTPTestServer, quiet)) = Some ''b=2&a=1''
   \<and> map_option (\<lambda>st. RequestBody (last (records (fst st))))
     (ServeHTTP bareMime (Target 0) jsonRequest (NewHTTPTestServer, quiet)) = Some ''{}''"
proof -
  obtain st1 where 1: "ServeHTTP bareMime (Target 0) formRequest (NewHTTPTestServer, quiet) = Some st1"
    using ServeHTTP_total [where r = formRequest and mime = bareMime and w = "Target 0"
        and srv = NewHTTPTestServer and s = quiet]
    by (auto simp: formRequest_def selectResponse_def NewHTTPTestServer_def)
  obtain st2 where 2: "ServeHTTP bareMime (Target 0) jsonRequest (NewHTTPTestServer, quiet) = Some st2"
    using ServeHTTP_total [where r = jsonRequest and mime = bareMime and w = "Target 0"
        and srv = NewHTTPTestServer and s = quiet]
    by (auto simp: jsonRequest_def selectResponse_def NewHTTPTestServer_def)
  have "RequestBody (last (records (fst st1))) = ''b=2&a=1''"
    using RequestBody_is_what_was_read [of bareMime "Target 0" formRequest NewHTTPTestServer quiet "fst st1" "snd st1"
        "''b=2&a=1''" None] 1
    by (simp add: formRequest_def maxFormSize_def)
  moreover have "RequestBody (last (records (fst st2))) = ''{}''"
    using RequestBody_is_what_was_read [of bareMime "Target 0" jsonRequest NewHTTPTestServer quiet "fst st2" "snd st2"
        "''{}''" None] 2
    by (simp add: jsonRequest_def)
  ultimately show ?thesis using 1 2 by simp
qed

text \<open>
  C7: \<^verbatim>\<open>PopServerRecord\<close> on a server without records returns \<^verbatim>\<open>nil\<close> and leaves the
  server as it is; on a server with records it returns the first record, which is the oldest
  since records are appended at the end, and removes it: one record less, the others in
  their order, the responses untouched.
\<close>

theorem PopServerRecord_oldest:
  "(records hts = [] \<longrightarrow> PopServerRecord hts = (None, hts))
   \<and> (records hts = rec # rest \<longrightarrow>
        PopServerRecord hts = (Some rec, hts\<lparr>records := rest\<rparr>)
        \<and> length (records (snd (PopServerRecord hts))) = length (records hts) - 1
        \<and> responses (snd (PopServerRecord hts)) = responses hts)"
  by (simp add: PopServerRecord_def)

theorem PopServerRecord_oldest_witness:
  "PopServerRecord NewHTTPTestServer = (None, NewHTTPTestServer)
   \<and> PopServerRecord
       \<lparr>responses = [responseB],
        records = [serverRecord getRequest 0 None, serverRecord jsonRequest 1 None]\<rparr>
     = (Some (serverRecord getRequest 0 None),
        \<lparr>responses = [responseB], records = [serverRecord jsonRequest 1 None]\<rparr>)"
  using PopServerRecord_oldest [of NewHTTPTestServer]
    PopServerRecord_oldest [of "\<lparr>responses = [responseB],
        records = [serverRecord getRequest 0 None, serverRecord jsonRequest 1 None]\<rparr>"
        "serverRecord getRequest 0 None" "[serverRecord jsonRequest 1 None]"]
  by (simp add: NewHTTPTestServer_def)



text \<open>
  C9, as amended: on every status code from 100 to 999 and every list of targets,
  \<^verbatim>\<open>WriteHeader\<close> of the multi target writer calls \<^verbatim>\<open>WriteHeader\<close> on each target, in
  the order of the list, whatever happened to the targets before: it returns, the trace
  grows by one such call for each sink below the writer, in order, and nothing else
  changes. On every status code, when it returns it has done so.
\<close>

theorem WriteHeader_reaches_every_target:
  "(checkWriteHeaderCode statusCode \<longrightarrow>
      WriteHeader statusCode (MultiTarget targets) s
        = Some (s\<lparr>trace := trace s
                   @ map (\<lambda>a. (a, WriteHeaderCall statusCode)) (leaves_targets targets)\<rparr>)
      \<and> WriteHeader statusCode (MultiTarget (map Target as)) s
        = Some (s\<lparr>trace := trace s @ map (\<lambda>a. (a, WriteHeaderCall statusCode)) as\<rparr>))
   \<and> (\<forall>s'. WriteHeader statusCode (MultiTarget targets) s = Some s' \<longrightarrow>
        s' = s\<lparr>trace := trace s
                 @ map (\<lambda>a. (a, WriteHeaderCall statusCode)) (leaves_targets targets)\<rparr>)"
proof (intro conjI impI allI)
  assume v: "checkWriteHeaderCode statusCode"
  show "WriteHeader statusCode (MultiTarget targets) s
        = Some (s\<lparr>trace := trace s
                   @ map (\<lambda>a. (a, WriteHeaderCall statusCode)) (leaves_targets targets)\<rparr>)"
    using WriteHeader_valid(1) [OF v, of "MultiTarget targets" s] by simp
  have "leaves (MultiTarget (map Target as)) = as" by (induction as) simp_all
  then show "WriteHeader statusCode (MultiTarget (map Target as)) s
        = Some (s\<lparr>trace := trace s @ map (\<lambda>a. (a, WriteHeaderCall statusCode)) as\<rparr>)"
    using WriteHeader_valid(1) [OF v, of "MultiTarget (map Target as)" s]
    by (simp only:)
next
  fix s'
  assume "WriteHeader statusCode (MultiTarget targets) s = Some s'"
  then show "s' = s\<lparr>trace := trace s
                 @ map (\<lambda>a. (a, WriteHeaderCall statusCode)) (leaves_targets targets)\<rparr>"
    using WriteHeader_Some(1) [of statusCode "MultiTarget targets" s s'] by simp
qed

text \<open>
  C9 as stated fails on the status codes outside 100 to 999: \<^verbatim>\<open>WriteHeader\<close> of a recorder
  that has not written its header panics on them, so that the loop ends at that target and
  the targets after it are not called. With the status 0, a sink that takes every status
  code receives the call when it is the only target, and does not when it comes after a new
  recorder, which is where the handler puts the writer of its caller (line 96).
\<close>

theorem WriteHeader_stops_at_panicking_target:
  "WriteHeader 0 (MultiTarget [Target (Client 0)]) broken
     = Some (broken\<lparr>trace := [(Client 0, WriteHeaderCall 0)]\<rparr>)
   \<and> WriteHeader 0 (Target (Recorder 0)) broken = None
   \<and> WriteHeader 0 (MultiTarget [Target (Recorder 0), Target (Client 0)]) broken = None"
  by (simp add: broken_def emit_def checkWriteHeaderCode_def)

theorem WriteHeader_reaches_every_target_witness:
  "WriteHeader 200 (MultiTarget [Target (Recorder 0), MultiTarget [Target (Client 0)],
                                 Target (Client 1)]) quiet
     = Some (quiet\<lparr>trace := [(Recorder 0, WriteHeaderCall 200), (Client 0, WriteHeaderCall 200),
                             (Client 1, WriteHeaderCall 200)]\<rparr>)
   \<and> WriteHeader 0 (MultiTarget [Target (Client 0), Target (Client 1)]) broken
     = Some (broken\<lparr>trace := [(Client 0, WriteHeaderCall 0), (Client 1, WriteHeaderCall 0)]\<rparr>)"
proof -
  let ?ts = "[Target (Recorder 0), MultiTarget [Target (Client 0)], Target (Client 1)]"
  let ?cs = "[Target (Client 0), Target (Client 1)]"
  let ?e = "emit (Client 1) (WriteHeaderCall 0) (emit (Client 0) (WriteHeaderCall 0) broken)"
  have v: "checkWriteHeaderCode 200" by (simp add: checkWriteHeaderCode_def)
  from WriteHeader_reaches_every_target [where statusCode = 200 and targets = ?ts and s = quiet] v
  have "WriteHeader 200 (MultiTarget ?ts) quiet
      = Some (quiet\<lparr>trace := trace quiet
                @ map (\<lambda>a. (a, WriteHeaderCall 200)) (leaves_targets ?ts)\<rparr>)"
    by blast
  then have 1: "WriteHeader 200 (MultiTarget ?ts) quiet
     = Some (quiet\<lparr>trace := [(Recorder 0, WriteHeaderCall 200), (Client 0, WriteHeaderCall 200),
                             (Client 1, WriteHeaderCall 200)]\<rparr>)"
    by (simp add: quiet_def del: WriteHeader.simps)
  have a: "WriteHeader 0 (MultiTarget ?cs) broken = Some ?e"
    by (simp add: broken_def emit_def)
  from WriteHeader_reaches_every_target [where statusCode = 0 and targets = ?cs and s = broken]
  have "\<forall>s'. WriteHeader 0 (MultiTarget ?cs) broken = Some s' \<longrightarrow>
        s' = broken\<lparr>trace := trace broken
                 @ map (\<lambda>a. (a, WriteHeaderCall 0)) (leaves_targets ?cs)\<rparr>"
    by blast
  with a have "?e = broken\<lparr>trace := trace broken
                 @ map (\<lambda>a. (a, WriteHeaderCall 0)) (leaves_targets ?cs)\<rparr>"
    by blast
  then have "?e = broken\<lparr>trace := [(Client 0, WriteHeaderCall 0), (Client 1, WriteHeaderCall 0)]\<rparr>"
    by (simp add: broken_def)
  with a have 2: "WriteHeader 0 (MultiTarget ?cs) broken
     = Some (broken\<lparr>trace := [(Client 0, WriteHeaderCall 0), (Client 1, WriteHeaderCall 0)]\<rparr>)"
    by (simp only:)
  from 1 2 show ?thesis by blast
qed

text \<open>
  C10: the condition of line 102 holds exactly when the content type differs from the text
  \<^verbatim>\<open>application/x-www-form-urlencoded\<close>: the body is compared with \<^verbatim>\<open>nil\<close> after line
  99 made it a tee reader, so that part of the condition is always true, also for a request
  whose body was \<^verbatim>\<open>nil\<close>. For the form type nothing is read before \<^verbatim>\<open>ParseForm\<close>. For
  every other content type, such as the form type followed by a charset, line 104 reads the
  whole body into the buffer; \<^verbatim>\<open>ParseForm\<close> then runs on the drained body, unless the read
  failed.
\<close>

theorem drain_skipped_for_exact_form_type_only:
  "copiesBody r (teeBody r) = (ContentType r \<noteq> ''application/x-www-form-urlencoded'')
   \<and> teeBody r \<noteq> None
   \<and> copiesBody (r\<lparr>ContentType := ''application/x-www-form-urlencoded; charset=UTF-8''\<rparr>)
           (teeBody (r\<lparr>ContentType := ''application/x-www-form-urlencoded; charset=UTF-8''\<rparr>))
   \<and> (ContentType r = ''application/x-www-form-urlencoded'' \<longrightarrow>
        drainBody r (teeBody r) = Some (None, Some (TeeReader (Request.Body r) [])))
   \<and> (ContentType r \<noteq> ''application/x-www-form-urlencoded'' \<longrightarrow>
        Request.Body r = Some (Reader d e) \<longrightarrow>
          drainBody r (teeBody r) = Some (e, Some (TeeReader (Some (Reader [] e)) d))
          \<and> readRequest mime r =
             (case e of
                Some x \<Rightarrow> Some (Inl (Wrap ''test server failed to read the request body: '' x, r,
                                     Some (TeeReader (Some (Reader [] e)) d)))
              | None \<Rightarrow>
                 (case ParseForm mime r (Some (TeeReader (Some (Reader [] None)) d)) of
                    None \<Rightarrow> None
                  | Some ((Some err, r2), body2) \<Rightarrow>
                      Some (Inl (Wrap ''test server failed to parse query string and form data: '' err,
                                 r2, body2))
                  | Some ((None, r2), body2) \<Rightarrow> Some (Inr (r2, body2)))))"
proof -
  have 1: "copiesBody r (teeBody r) = (ContentType r \<noteq> ''application/x-www-form-urlencoded'')" for r
    by (simp add: copiesBody_def teeBody_def)
  have 2: "teeBody r \<noteq> None" by (simp add: teeBody_def)
  have 3: "copiesBody (r\<lparr>ContentType := ''application/x-www-form-urlencoded; charset=UTF-8''\<rparr>)
           (teeBody (r\<lparr>ContentType := ''application/x-www-form-urlencoded; charset=UTF-8''\<rparr>))"
    unfolding 1 by simp
  have 4: "drainBody r (teeBody r) = Some (None, Some (TeeReader (Request.Body r) []))"
    if "ContentType r = ''application/x-www-form-urlencoded''"
    using that unfolding drainBody_teeBody by (simp add: teeBody_def)
  have 5: "drainBody r (teeBody r) = Some (e, Some (TeeReader (Some (Reader [] e)) d))"
    if "ContentType r \<noteq> ''application/x-www-form-urlencoded''" "Request.Body r = Some (Reader d e)"
    using that unfolding drainBody_teeBody by simp
  from 1 [of r] 2 3 4 5 readRequest_other [of r d e mime] show ?thesis by blast
qed

theorem drain_skipped_for_exact_form_type_only_witness:
  "\<not> copiesBody formRequest (teeBody formRequest)
   \<and> drainBody formRequest (teeBody formRequest)
       = Some (None, Some (TeeReader (Some (Reader ''b=2&a=1'' None)) []))
   \<and> copiesBody jsonRequest (teeBody jsonRequest)
   \<and> drainBody jsonRequest (teeBody jsonRequest)
       = Some (None, Some (TeeReader (Some (Reader [] None)) ''{}''))
   \<and> drainBody failingRequest (teeBody failingRequest)
       = Some (Some (Err ''PWNED''), Some (TeeReader (Some (Reader [] (Some (Err ''PWNED'')))) []))"
  using drain_skipped_for_exact_form_type_only [of formRequest "''b=2&a=1''" None bareMime]
    drain_skipped_for_exact_form_type_only [of jsonRequest "''{}''" None bareMime]
    drain_skipped_for_exact_form_type_only [of failingRequest "[]" "Some (Err ''PWNED'')" bareMime]
  by (simp add: formRequest_def jsonRequest_def failingRequest_def)

end
